theory Spec2Isabelle
  imports Complex_Main
begin

section \<open>JavaScript numbers\<close>

text \<open>
  The services compute with JavaScript numbers, which are IEEE 754 double-precision values.
  \<open>Fin x\<close> is the finite double whose value is the real \<open>x\<close>, \<open>Fin 0\<close> being the positive
  zero; \<open>NegZero\<close> is the negative zero. Every arithmetic operation returns the exact result
  rounded to the nearest double, ties to the even significand.
\<close>

datatype jsnum = Fin real | NegZero | PosInf | NegInf | NaN

subsection \<open>Rounding to a double\<close>

text \<open>
  The binary exponent of a real other than zero, \<open>2 ^ binade x \<le> \<bar>x\<bar> < 2 ^ (binade x + 1)\<close>,
  found by halving or doubling until the magnitude lies between 1 and 2.
\<close>

function binade :: "real \<Rightarrow> int" where
  "binade x =
     (if x = 0 then 0
      else if 2 \<le> \<bar>x\<bar> then binade (x / 2) + 1
      else if \<bar>x\<bar> < 1 then binade (x * 2) - 1
      else 0)"
  by pat_completeness auto

termination
proof (relation "measure (\<lambda>x. if 1 \<le> \<bar>x\<bar> \<and> \<bar>x\<bar> < 2 then 0 else 1 + nat \<lfloor>\<bar>log 2 \<bar>x\<bar>\<bar>\<rfloor>)")
  show "wf (measure (\<lambda>x::real. if 1 \<le> \<bar>x\<bar> \<and> \<bar>x\<bar> < 2 then 0 else 1 + nat \<lfloor>\<bar>log 2 \<bar>x\<bar>\<bar>\<rfloor>))"
    by simp
next
  fix x :: real
  assume "x \<noteq> 0" and big: "2 \<le> \<bar>x\<bar>"
  have l: "log 2 \<bar>x / 2\<bar> = log 2 \<bar>x\<bar> - 1"
    using \<open>x \<noteq> 0\<close> by (simp add: log_divide)
  have "1 \<le> log 2 \<bar>x\<bar>"
    using big by (simp add: le_log_iff)
  then have "nat \<lfloor>\<bar>log 2 \<bar>x\<bar> - 1\<bar>\<rfloor> < 1 + nat \<lfloor>\<bar>log 2 \<bar>x\<bar>\<bar>\<rfloor>"
    by (simp add: abs_if)
  then show "(x / 2, x) \<in> measure (\<lambda>x. if 1 \<le> \<bar>x\<bar> \<and> \<bar>x\<bar> < 2 then 0 else 1 + nat \<lfloor>\<bar>log 2 \<bar>x\<bar>\<bar>\<rfloor>)"
    using big l by (auto simp del: abs_divide)
next
  fix x :: real
  assume "x \<noteq> 0" and small: "\<bar>x\<bar> < 1"
  have l: "log 2 \<bar>x * 2\<bar> = log 2 \<bar>x\<bar> + 1"
    using \<open>x \<noteq> 0\<close> by (simp add: abs_mult log_mult)
  show "(x * 2, x) \<in> measure (\<lambda>x. if 1 \<le> \<bar>x\<bar> \<and> \<bar>x\<bar> < 2 then 0 else 1 + nat \<lfloor>\<bar>log 2 \<bar>x\<bar>\<bar>\<rfloor>)"
  proof (cases "1 \<le> \<bar>x * 2\<bar>")
    case True
    then show ?thesis
      using small by auto
  next
    case False
    then have "\<bar>x * 2\<bar> < 1"
      by simp
    then have "log 2 \<bar>x * 2\<bar> < 0"
      using \<open>x \<noteq> 0\<close> by (simp add: log_less_zero_cancel_iff del: abs_mult)
    then have "log 2 \<bar>x\<bar> < - 1"
      using l by linarith
    then have "nat \<lfloor>\<bar>log 2 \<bar>x\<bar> + 1\<bar>\<rfloor> < nat \<lfloor>\<bar>log 2 \<bar>x\<bar>\<bar>\<rfloor>"
      by (simp add: abs_if)
    then show ?thesis
      using False small l by (auto simp del: abs_mult)
  qed
qed

declare binade.simps [simp del]

text \<open>
  The distance between neighbouring doubles around \<open>x\<close>: a significand of 53 bits, and below
  \<open>2 ^ - 1022\<close> the fixed spacing \<open>2 ^ - 1074\<close> of the subnormal numbers.
\<close>

definition ulp :: "real \<Rightarrow> real" where
  "ulp x = 2 powi (max (binade x) (- 1022) - 52)"

text \<open>The integer nearest to a real; of two equally near integers the even one.\<close>

definition nearest_even :: "real \<Rightarrow> int" where
  "nearest_even y =
     (let f = \<lfloor>y\<rfloor>
      in if y - of_int f < 1 / 2 then f
         else if 1 / 2 < y - of_int f then f + 1
         else if even f then f else f + 1)"

text \<open>The multiple of the spacing nearest to \<open>x\<close>, with an exponent that is not bounded above.\<close>

definition round_double :: "real \<Rightarrow> real" where
  "round_double x = (if x = 0 then 0 else of_int (nearest_even (x / ulp x)) * ulp x)"

text \<open>
  The double a real result is rounded to: an infinity when the rounded magnitude reaches
  \<open>2 ^ 1024\<close>, and a zero that keeps the sign when the magnitude rounds to nothing.
\<close>

definition to_double :: "real \<Rightarrow> jsnum" where
  "to_double x =
     (let r = round_double x
      in if 2 ^ 1024 \<le> \<bar>r\<bar> then (if x < 0 then NegInf else PosInf)
         else if r = 0 then (if x < 0 then NegZero else Fin 0)
         else Fin r)"

subsection \<open>Arithmetic and comparison\<close>

fun negative :: "jsnum \<Rightarrow> bool" where
  "negative (Fin a) = (a < 0)"
| "negative NegZero = True"
| "negative PosInf = False"
| "negative NegInf = True"
| "negative NaN = False"

fun is_infinite :: "jsnum \<Rightarrow> bool" where
  "is_infinite PosInf = True"
| "is_infinite NegInf = True"
| "is_infinite _ = False"

fun is_zero :: "jsnum \<Rightarrow> bool" where
  "is_zero (Fin a) = (a = 0)"
| "is_zero NegZero = True"
| "is_zero _ = False"

fun finite_value :: "jsnum \<Rightarrow> real" where
  "finite_value (Fin a) = a"
| "finite_value _ = 0"

text \<open>Unary minus flips the sign, also of a zero.\<close>

fun js_neg :: "jsnum \<Rightarrow> jsnum" where
  "js_neg (Fin a) = (if a = 0 then NegZero else Fin (- a))"
| "js_neg NegZero = Fin 0"
| "js_neg PosInf = NegInf"
| "js_neg NegInf = PosInf"
| "js_neg NaN = NaN"

text \<open>
  \<^verbatim>\<open>a + b\<close>. Adding a zero returns the other operand; the sum of two zeros is negative only
  when both are; an exact sum of zero of two other numbers is the positive zero.
\<close>

fun js_add :: "jsnum \<Rightarrow> jsnum \<Rightarrow> jsnum" where
  "js_add NaN b = NaN"
| "js_add a NaN = NaN"
| "js_add PosInf NegInf = NaN"
| "js_add NegInf PosInf = NaN"
| "js_add PosInf b = PosInf"
| "js_add a PosInf = PosInf"
| "js_add NegInf b = NegInf"
| "js_add a NegInf = NegInf"
| "js_add NegZero b = b"
| "js_add a NegZero = a"
| "js_add (Fin a) (Fin b) =
     (if a = 0 then Fin b else if b = 0 then Fin a else to_double (a + b))"

text \<open>\<^verbatim>\<open>a - b\<close> is \<^verbatim>\<open>a + (-b)\<close>.\<close>

definition js_sub :: "jsnum \<Rightarrow> jsnum \<Rightarrow> jsnum" where
  "js_sub a b = js_add a (js_neg b)"

text \<open>
  \<^verbatim>\<open>a * b\<close>. The sign of the result is the exclusive or of the operands' signs; zero times
  infinity is \<^verbatim>\<open>NaN\<close>.
\<close>

definition js_mul :: "jsnum \<Rightarrow> jsnum \<Rightarrow> jsnum" where
  "js_mul a b =
     (if a = NaN \<or> b = NaN then NaN
      else if is_infinite a \<or> is_infinite b
      then (if is_zero a \<or> is_zero b then NaN
            else if negative a \<noteq> negative b then NegInf else PosInf)
      else if is_zero a \<or> is_zero b
      then (if negative a \<noteq> negative b then NegZero else Fin 0)
      else to_double (finite_value a * finite_value b))"

text \<open>
  \<^verbatim>\<open>a / b\<close>. Zero by zero and infinity by infinity are \<^verbatim>\<open>NaN\<close>; any other number divided by
  a zero is an infinity whose sign is the exclusive or of the operands' signs.
\<close>

definition js_div :: "jsnum \<Rightarrow> jsnum \<Rightarrow> jsnum" where
  "js_div a b =
     (if a = NaN \<or> b = NaN then NaN
      else if is_infinite a
      then (if is_infinite b then NaN
            else if negative a \<noteq> negative b then NegInf else PosInf)
      else if is_infinite b
      then (if negative a \<noteq> negative b then NegZero else Fin 0)
      else if is_zero b
      then (if is_zero a then NaN
            else if negative a \<noteq> negative b then NegInf else PosInf)
      else if is_zero a
      then (if negative a \<noteq> negative b then NegZero else Fin 0)
      else to_double (finite_value a / finite_value b))"

text \<open>
  \<^verbatim>\<open>a < b\<close>; \<^verbatim>\<open>a > b\<close> is \<^verbatim>\<open>b < a\<close>. A comparison with \<^verbatim>\<open>NaN\<close> is false, and the two zeros
  are equal.
\<close>

fun rank :: "jsnum \<Rightarrow> int" where
  "rank NegInf = - 1"
| "rank PosInf = 1"
| "rank _ = 0"

definition js_less :: "jsnum \<Rightarrow> jsnum \<Rightarrow> bool" where
  "js_less a b \<longleftrightarrow>
     a \<noteq> NaN \<and> b \<noteq> NaN
     \<and> (rank a < rank b \<or> rank a = rank b \<and> finite_value a < finite_value b)"

text \<open>
  \<^verbatim>\<open>Math.log\<close>. The language fixes its value at \<^verbatim>\<open>NaN\<close>, below zero, at the zeros, at 1 and at
  \<^verbatim>\<open>Infinity\<close>, and leaves every other value to the engine, as an approximation of the
  natural logarithm: \<open>approxLn\<close> is the engine's function on the positive finite numbers.
\<close>

fun mathLog :: "(real \<Rightarrow> real) \<Rightarrow> jsnum \<Rightarrow> jsnum" where
  "mathLog approxLn NaN = NaN"
| "mathLog approxLn NegInf = NaN"
| "mathLog approxLn PosInf = PosInf"
| "mathLog approxLn NegZero = NegInf"
| "mathLog approxLn (Fin x) =
     (if x < 0 then NaN else if x = 0 then NegInf else if x = 1 then Fin 0
      else Fin (approxLn x))"

subsection \<open>Printing with two decimals and reading back\<close>

text \<open>
  A value handed on by the services is a number or a string. The strings are those
  \<^verbatim>\<open>toFixed(2)\<close> returns: a sign and a number of hundredths printed with two decimals
  (\<open>JsDecimal True 1437\<close> is \<^verbatim>\<open>"-14.37"\<close>), or the text of a number that is not finite or has
  a magnitude of \<open>10^21\<close> or more, which the method prints as \<^verbatim>\<open>String\<close> does.
\<close>

datatype jsval = JsNumber jsnum | JsText jsnum | JsDecimal bool nat

text \<open>
  \<^verbatim>\<open>Number.prototype.toFixed(2)\<close>: the sign is split off; of the integers \<open>n\<close> with \<open>n / 100\<close>
  closest to the magnitude, the larger one is printed. The negative zero is not below zero
  and prints as \<^verbatim>\<open>"0.00"\<close>.
\<close>

fun toFixed :: "jsnum \<Rightarrow> jsval" where
  "toFixed (Fin x) =
     (if 10 ^ 21 \<le> \<bar>x\<bar> then JsText (Fin x)
      else JsDecimal (x < 0) (nat \<lfloor>\<bar>x\<bar> * 100 + 1 / 2\<rfloor>))"
| "toFixed NegZero = JsDecimal False 0"
| "toFixed PosInf = JsText PosInf"
| "toFixed NegInf = JsText NegInf"
| "toFixed NaN = JsText NaN"

text \<open>
  \<^verbatim>\<open>parseFloat\<close> reads the decimal as the nearest double, and the minus sign negates what was
  read, so that \<^verbatim>\<open>"-0.00"\<close> is the negative zero. The text of a number reads back as that
  number. A number passed to \<^verbatim>\<open>parseFloat\<close> is first printed, the negative zero as \<^verbatim>\<open>"0"\<close>.
\<close>

fun parseFloat :: "jsval \<Rightarrow> jsnum" where
  "parseFloat (JsNumber x) = (if x = NegZero then Fin 0 else x)"
| "parseFloat (JsText x) = x"
| "parseFloat (JsDecimal neg n) =
     (if neg then js_neg (to_double (real n / 100)) else to_double (real n / 100))"

section \<open>Statistics service\<close>

subsection \<open>Order statistics\<close>

record orderStats =
  todayRevenue :: jsnum
  yesterdayRevenue :: jsnum
  todayOrders :: jsnum
  yesterdayOrders :: jsnum
  averageOrderValue :: jsnum

record orderMetrics =
  revenueGrowthRate :: jsnum
  orderGrowthRate :: jsnum
  metricsAverageOrderValue :: jsnum

text \<open>
  \<^verbatim>\<open>getOrderStatistics\<close>, after its two reads: the growth rates of the \<^verbatim>\<open>metrics\<close> block.
  The enrichment of \<^verbatim>\<open>topDishes\<close>, the conversion rate and the peak-hour revenue do not
  feed the growth rates and are left out.
\<close>

definition getOrderStatistics :: "orderStats \<Rightarrow> orderMetrics" where
  "getOrderStatistics orderStats =
     (let growthRate =
            (if js_less (Fin 0) (yesterdayRevenue orderStats)
             then toFixed (js_mul
                    (js_div (js_sub (todayRevenue orderStats) (yesterdayRevenue orderStats))
                            (yesterdayRevenue orderStats))
                    (Fin 100))
             else JsNumber (Fin 0));
          orderGrowthRate' =
            (if js_less (Fin 0) (yesterdayOrders orderStats)
             then toFixed (js_mul
                    (js_div (js_sub (todayOrders orderStats) (yesterdayOrders orderStats))
                            (yesterdayOrders orderStats))
                    (Fin 100))
             else JsNumber (Fin 0))
      in \<lparr> revenueGrowthRate = parseFloat growthRate,
           orderGrowthRate = parseFloat orderGrowthRate',
           metricsAverageOrderValue = averageOrderValue orderStats \<rparr>)"

subsection \<open>Promotion analytics\<close>

record promotion =
  promo_id :: string
  applicableDishes :: "string list"
  totalOrders :: jsnum
  totalRevenue :: jsnum
  discountGiven :: jsnum
  conversionRate :: jsnum

record promotionStats =
  activePromotions :: "promotion list"
  completedPromotions :: "promotion list"

record promotionAnalytics =
  pa_promotion :: promotion
  pa_isActive :: bool
  roi :: jsnum
  pa_averageOrderValue :: jsnum
  discountPercentage :: jsnum

text \<open>
  \<^verbatim>\<open>getPromotionAnalytics\<close>, after its reads: the promotion is looked up among the active
  promotions first, then among the completed ones; \<open>None\<close> is the source's \<^verbatim>\<open>null\<close>. The
  per-day figures (computed from dates), the effectiveness score and the list of dishes
  are separate fields of the result and are left out.
\<close>

definition getPromotionAnalytics :: "promotionStats \<Rightarrow> string \<Rightarrow> promotionAnalytics option" where
  "getPromotionAnalytics stats promotionId =
     (let found =
            (case find (\<lambda>p. promo_id p = promotionId) (activePromotions stats) of
               Some p \<Rightarrow> Some (p, True)
             | None \<Rightarrow>
                 (case find (\<lambda>p. promo_id p = promotionId) (completedPromotions stats) of
                    Some p \<Rightarrow> Some (p, False)
                  | None \<Rightarrow> None))
      in case found of
           None \<Rightarrow> None
         | Some (promotion, isActive) \<Rightarrow>
             (let roi' =
                    (if js_less (Fin 0) (totalRevenue promotion)
                     then toFixed (js_mul
                            (js_div (js_sub (totalRevenue promotion) (discountGiven promotion))
                                    (discountGiven promotion))
                            (Fin 100))
                     else JsNumber (Fin 0));
                  averageOrderValue' =
                    (if js_less (Fin 0) (totalOrders promotion)
                     then toFixed (js_div (totalRevenue promotion) (totalOrders promotion))
                     else JsNumber (Fin 0));
                  discountPercentage' =
                    (if js_less (Fin 0) (totalRevenue promotion)
                     then toFixed (js_mul
                            (js_div (discountGiven promotion)
                                    (js_add (totalRevenue promotion) (discountGiven promotion)))
                            (Fin 100))
                     else JsNumber (Fin 0))
              in Some \<lparr> pa_promotion = promotion,
                        pa_isActive = isActive,
                        roi = parseFloat roi',
                        pa_averageOrderValue = parseFloat averageOrderValue',
                        discountPercentage = parseFloat discountPercentage' \<rparr>))"

subsection \<open>Review statistics\<close>

record monthlyEntry =
  month :: string
  m_averageRating :: jsnum
  m_totalReviews :: jsnum

datatype direction = improving | declining | stable

text \<open>
  The two shapes of object \<^verbatim>\<open>calculateReviewTrend\<close> returns: \<^verbatim>\<open>{direction, change}\<close> for a
  series too short to compare, and \<^verbatim>\<open>{direction, ratingChange, reviewChange,
  reviewGrowthRate}\<close> otherwise. The literals \<^verbatim>\<open>0.1\<close> and \<^verbatim>\<open>-0.1\<close> are the doubles nearest to
  a tenth.
\<close>

datatype reviewTrend =
    TrendShort direction int
  | TrendFull direction jsval jsnum jsval

definition calculateReviewTrend :: "monthlyEntry list \<Rightarrow> reviewTrend" where
  "calculateReviewTrend monthlyTrend =
     (if length monthlyTrend < 2 then TrendShort stable 0
      else
        (let latest = monthlyTrend ! (length monthlyTrend - 1);
             previous = monthlyTrend ! (length monthlyTrend - 2);
             ratingChange = js_sub (m_averageRating latest) (m_averageRating previous);
             reviewChange = js_sub (m_totalReviews latest) (m_totalReviews previous)
         in TrendFull
              (if js_less (to_double (1 / 10)) ratingChange then improving
               else if js_less ratingChange (js_neg (to_double (1 / 10))) then declining
               else stable)
              (toFixed ratingChange)
              reviewChange
              (if js_less (Fin 0) (m_totalReviews previous)
               then toFixed (js_mul (js_div reviewChange (m_totalReviews previous)) (Fin 100))
               else JsNumber (Fin 0))))"

text \<open>
  A dish's review entry. Fields the enrichment adds (\<^verbatim>\<open>dishName\<close>, \<^verbatim>\<open>dishPrice\<close>,
  \<^verbatim>\<open>categoryId\<close>) sit in the record's extension.
\<close>

record dishReview =
  dr_dishId :: string
  averageRating :: jsnum
  totalReviews :: jsnum

text \<open>
  \<^verbatim>\<open>findTopRatedDish\<close>: \<^verbatim>\<open>reduce\<close> without an initial value starts from the first entry
  and folds the rest from the left; the challenger wins only with a strictly larger score.
\<close>

definition findTopRatedDish ::
  "(real \<Rightarrow> real) \<Rightarrow> 'a dishReview_scheme list \<Rightarrow> 'a dishReview_scheme option" where
  "findTopRatedDish approxLn dishReviews =
     (case dishReviews of
        [] \<Rightarrow> None
      | first # rest \<Rightarrow>
          Some (foldl (\<lambda>top current.
                  let topScore =
                        js_mul (averageRating top)
                          (mathLog approxLn (js_add (totalReviews top) (Fin 1)));
                      currentScore =
                        js_mul (averageRating current)
                          (mathLog approxLn (js_add (totalReviews current) (Fin 1)))
                  in if js_less topScore currentScore then current else top)
                first rest))"

section \<open>Data store\<close>

text \<open>
  The store keeps each collection in one JSON file, read and written whole. The model keeps
  the three collections the menu and inventory services use. The fields
  \<^verbatim>\<open>createdAt\<close>, \<^verbatim>\<open>updatedAt\<close>, \<^verbatim>\<open>lastUpdated\<close> and \<^verbatim>\<open>lastAdjustmentDate\<close> hold the wall-clock
  time of the call and are not modelled, nor are the descriptive dish fields
  (\<^verbatim>\<open>description\<close>, \<^verbatim>\<open>imageUrl\<close>, \<^verbatim>\<open>ingredients\<close>, \<^verbatim>\<open>allergens\<close>, \<^verbatim>\<open>preparationTime\<close>,
  \<^verbatim>\<open>calories\<close>, \<^verbatim>\<open>isSpicy\<close>, \<^verbatim>\<open>isVegetarian\<close>), which no operation below reads.
  A field that may be missing is an \<open>option\<close>, \<open>None\<close> standing for \<^verbatim>\<open>undefined\<close>; for the
  texts \<^verbatim>\<open>expiryDate\<close> and \<^verbatim>\<open>adjustmentReason\<close>, which are stored and never inspected,
  \<open>None\<close> stands for \<^verbatim>\<open>null\<close> as well. The numeric fields never hold \<^verbatim>\<open>null\<close>: the
  services write numbers there and the request validators accept nothing else. The stock
  of a dish and of an inventory record is an integer: \<^verbatim>\<open>createDish\<close>,
  \<^verbatim>\<open>createInventoryEntry\<close> and \<^verbatim>\<open>updateDishStock\<close> always write one, and a dish or a record
  without a stock is not among the states of the model. Prices and costs are stored and
  handed on without arithmetic and are the reals their doubles denote.
\<close>

datatype dataFile = categoriesFile | dishesFile | inventoryFile

record category =
  cat_id :: string
  cat_name :: string
  description :: string
  sortOrder :: int
  isActive :: bool

record dish =
  dish_id :: string
  dish_categoryId :: string
  dish_name :: string
  dish_price :: real
  dish_status :: string
  dish_stock :: int

record inventoryItem =
  dishId :: string
  stock :: int
  alertThreshold :: "int option"
  supplier :: "string option"
  cost :: "real option"
  expiryDate :: "string option"
  adjustmentReason :: "string option"
  lastAdjustment :: "int option"

text \<open>
  \<^verbatim>\<open>readData\<close> and \<^verbatim>\<open>writeData\<close> throw when the file system or the JSON parser does. Which
  files fail is part of the state: a file in \<open>unreadable\<close> makes every read of it throw, a
  file in \<open>unwritable\<close> every write. A missing file reads as the empty list.
\<close>

record store =
  categories :: "category list"
  dishes :: "dish list"
  inventory :: "inventoryItem list"
  unreadable :: "dataFile set"
  unwritable :: "dataFile set"

text \<open>
  Every \<^verbatim>\<open>throw\<close> of the services is a plain \<^verbatim>\<open>Error\<close> told apart by its message; each
  message is a constructor.
\<close>

datatype error =
    ReadFailed dataFile
  | WriteFailed dataFile
  | MissingRequiredFields "string list"
  | CategoryNotFound string
  | CategoryHasDishes nat
  | InventoryNotFound string

text \<open>
  The kinds of the specification's error taxonomy. The controllers tell the errors apart by
  message: \<^verbatim>\<open>Cannot delete category with existing dishes\<close> is answered with 409 CONFLICT,
  \<^verbatim>\<open>Inventory not found\<close> with 404 NOT\_FOUND, \<^verbatim>\<open>Category not found\<close> with 400. Missing
  required fields are the taxonomy's missing input; a failed read or write is its I/O
  error.
\<close>

datatype errorKind = ValidationError | NotFoundError | ConflictError | IOError

fun kindOf :: "error \<Rightarrow> errorKind" where
  "kindOf (ReadFailed f) = IOError"
| "kindOf (WriteFailed f) = IOError"
| "kindOf (MissingRequiredFields fs) = ValidationError"
| "kindOf (CategoryNotFound c) = ValidationError"
| "kindOf (CategoryHasDishes n) = ConflictError"
| "kindOf (InventoryNotFound d) = NotFoundError"

definition readCategories :: "store \<Rightarrow> error + category list" where
  "readCategories st =
     (if categoriesFile \<in> unreadable st then Inl (ReadFailed categoriesFile)
      else Inr (categories st))"

definition readDishes :: "store \<Rightarrow> error + dish list" where
  "readDishes st =
     (if dishesFile \<in> unreadable st then Inl (ReadFailed dishesFile) else Inr (dishes st))"

definition readInventory :: "store \<Rightarrow> error + inventoryItem list" where
  "readInventory st =
     (if inventoryFile \<in> unreadable st then Inl (ReadFailed inventoryFile)
      else Inr (inventory st))"

definition writeCategories :: "category list \<Rightarrow> store \<Rightarrow> error + store" where
  "writeCategories cs st =
     (if categoriesFile \<in> unwritable st then Inl (WriteFailed categoriesFile)
      else Inr (st\<lparr>categories := cs\<rparr>))"

definition writeDishes :: "dish list \<Rightarrow> store \<Rightarrow> error + store" where
  "writeDishes ds st =
     (if dishesFile \<in> unwritable st then Inl (WriteFailed dishesFile)
      else Inr (st\<lparr>dishes := ds\<rparr>))"

definition writeInventory :: "inventoryItem list \<Rightarrow> store \<Rightarrow> error + store" where
  "writeInventory items st =
     (if inventoryFile \<in> unwritable st then Inl (WriteFailed inventoryFile)
      else Inr (st\<lparr>inventory := items\<rparr>))"

text \<open>
  \<^verbatim>\<open>Array.prototype.findIndex\<close>: the index of the first element that satisfies the test;
  \<open>None\<close> is the source's \<open>-1\<close>.
\<close>

fun findIndex :: "('a \<Rightarrow> bool) \<Rightarrow> 'a list \<Rightarrow> nat option" where
  "findIndex P [] = None"
| "findIndex P (x # xs) = (if P x then Some 0 else map_option Suc (findIndex P xs))"

text \<open>
  \<^verbatim>\<open>findById\<close> and \<^verbatim>\<open>findIndexById\<close> compare the \<^verbatim>\<open>id\<close> property; the selector of that
  property is the first argument.
\<close>

definition findById :: "('a \<Rightarrow> string) \<Rightarrow> 'a list \<Rightarrow> string \<Rightarrow> 'a option" where
  "findById key data i = find (\<lambda>item. key item = i) data"

definition findIndexById :: "('a \<Rightarrow> string) \<Rightarrow> 'a list \<Rightarrow> string \<Rightarrow> nat option" where
  "findIndexById key data i = findIndex (\<lambda>item. key item = i) data"

text \<open>The decimal numeral of a counter, as the template string prints it.\<close>

definition digit :: "nat \<Rightarrow> char" where
  "digit d = ''0123456789'' ! d"

fun string_of_nat :: "nat \<Rightarrow> string" where
  "string_of_nat n =
     (if n < 10 then [digit n] else string_of_nat (n div 10) @ [digit (n mod 10)])"

declare string_of_nat.simps [simp del]

lemma digit_inj: "a < 10 \<Longrightarrow> b < 10 \<Longrightarrow> digit a = digit b \<Longrightarrow> a = b"
proof -
  have c: "\<And>n::nat. n < 10 \<Longrightarrow> n \<in> {0, 1, 2, 3, 4, 5, 6, 7, 8, 9}" by auto
  assume "a < 10" "b < 10" "digit a = digit b"
  with c [of a] c [of b] show "a = b"
    by (auto simp: digit_def)
qed

lemma string_of_nat_not_Nil: "string_of_nat n \<noteq> []" "[] \<noteq> string_of_nat n"
  by (subst string_of_nat.simps, simp)+

lemma string_of_nat_inj: "string_of_nat m = string_of_nat n \<Longrightarrow> m = n"
proof (induction m arbitrary: n rule: string_of_nat.induct)
  case (1 m)
  show ?case
  proof (cases "m < 10")
    case small_m: True
    show ?thesis
    proof (cases "n < 10")
      case True
      with small_m "1.prems" show ?thesis
        by (simp add: string_of_nat.simps [of m] string_of_nat.simps [of n] digit_inj)
    next
      case False
      with small_m "1.prems" show ?thesis
        by (simp add: string_of_nat.simps [of m] string_of_nat.simps [of n]
            string_of_nat_not_Nil)
    qed
  next
    case big_m: False
    show ?thesis
    proof (cases "n < 10")
      case True
      with big_m "1.prems" show ?thesis
        by (simp add: string_of_nat.simps [of m] string_of_nat.simps [of n]
            string_of_nat_not_Nil)
    next
      case False
      with big_m "1.prems"
      have q: "string_of_nat (m div 10) = string_of_nat (n div 10)"
        and r: "digit (m mod 10) = digit (n mod 10)"
        by (simp_all add: string_of_nat.simps [of m] string_of_nat.simps [of n])
      from "1.IH" [OF big_m q] have "m div 10 = n div 10" .
      moreover from r have "m mod 10 = n mod 10"
        by (rule digit_inj [rotated 2]) simp_all
      ultimately show ?thesis
        by (metis div_mult_mod_eq)
    qed
  qed
qed

text \<open>
  \<^verbatim>\<open>generateId\<close>: the counter starts at 1 and is raised until the identifier is unused. The
  loop ends because the identifiers of different counters differ and only finitely many
  are taken.
\<close>

function generateId_from :: "string \<Rightarrow> string list \<Rightarrow> nat \<Rightarrow> string" where
  "generateId_from prefix ids counter =
     (if prefix @ string_of_nat counter \<in> set ids
      then generateId_from prefix ids (Suc counter)
      else prefix @ string_of_nat counter)"
  by pat_completeness auto

lemma taken_counters_finite: "finite {k. prefix @ string_of_nat k \<in> set ids}"
proof -
  have "inj (\<lambda>k. prefix @ string_of_nat k)"
    by (rule injI) (simp add: string_of_nat_inj)
  then have "finite ((\<lambda>k. prefix @ string_of_nat k) -` set ids)"
    by (rule finite_vimageI [rotated]) simp
  then show ?thesis by (simp add: vimage_def)
qed

termination generateId_from
proof (relation "measure (\<lambda>(prefix, ids, counter).
          card {k. counter \<le> k \<and> prefix @ string_of_nat k \<in> set ids})")
  show "wf (measure (\<lambda>(prefix, ids, counter).
          card {k. counter \<le> k \<and> prefix @ string_of_nat k \<in> set ids}))"
    by simp
next
  fix prefix :: string and ids :: "string list" and counter :: nat
  assume taken: "prefix @ string_of_nat counter \<in> set ids"
  let ?A = "{k. counter \<le> k \<and> prefix @ string_of_nat k \<in> set ids}"
  let ?B = "{k. Suc counter \<le> k \<and> prefix @ string_of_nat k \<in> set ids}"
  have fin: "finite ?A"
    by (rule finite_subset [OF _ taken_counters_finite [of prefix ids]]) auto
  have "counter \<in> ?A" and "counter \<notin> ?B" and "?B \<subseteq> ?A"
    using taken by auto
  then have "?B \<subset> ?A" by blast
  then have "card ?B < card ?A" using fin by (rule psubset_card_mono [rotated])
  then show "((prefix, ids, Suc counter), (prefix, ids, counter))
      \<in> measure (\<lambda>(prefix, ids, counter).
          card {k. counter \<le> k \<and> prefix @ string_of_nat k \<in> set ids})"
    by simp
qed

declare generateId_from.simps [simp del]

definition generateId :: "string \<Rightarrow> string list \<Rightarrow> string" where
  "generateId prefix existingIds = generateId_from prefix existingIds 1"

text \<open>
  \<^verbatim>\<open>a || b\<close> with a number, a string or nothing on the left: \<^verbatim>\<open>undefined\<close>, \<^verbatim>\<open>null\<close>, \<open>0\<close>
  and the empty string are falsy and give way to the right operand.
\<close>

definition or_int :: "int option \<Rightarrow> int \<Rightarrow> int" where
  "or_int a b = (case a of Some v \<Rightarrow> if v = 0 then b else v | None \<Rightarrow> b)"

definition or_real :: "real option \<Rightarrow> real \<Rightarrow> real" where
  "or_real a b = (case a of Some v \<Rightarrow> if v = 0 then b else v | None \<Rightarrow> b)"

definition or_string :: "string option \<Rightarrow> string \<Rightarrow> string" where
  "or_string a b = (case a of Some v \<Rightarrow> if v = [] then b else v | None \<Rightarrow> b)"

definition or_undefined :: "int option \<Rightarrow> int option \<Rightarrow> int option" where
  "or_undefined a b = (case a of Some v \<Rightarrow> if v = 0 then b else Some v | None \<Rightarrow> b)"

text \<open>\<^verbatim>\<open>validateRequiredFields\<close>; the first argument tells whether a property of the object is
  \<^verbatim>\<open>undefined\<close>, \<^verbatim>\<open>null\<close> or the empty string.\<close>

definition validateRequiredFields :: "(string \<Rightarrow> bool) \<Rightarrow> string list \<Rightarrow> error + unit" where
  "validateRequiredFields isMissing requiredFields =
     (let missingFields = filter isMissing requiredFields
      in if length missingFields > 0 then Inl (MissingRequiredFields missingFields)
         else Inr ())"

section \<open>Menu service\<close>

definition getCategoryById :: "string \<Rightarrow> store \<Rightarrow> error + category option" where
  "getCategoryById categoryId st =
     (case readCategories st of
        Inl e \<Rightarrow> Inl e
      | Inr cs \<Rightarrow> Inr (findById cat_id cs categoryId))"

text \<open>The properties an update of a category may carry; \<open>None\<close> is a property not given.\<close>

record categoryUpdate =
  upd_name :: "string option"
  upd_description :: "string option"
  upd_sortOrder :: "int option"
  upd_isActive :: "bool option"

definition applyCategoryUpdate :: "categoryUpdate \<Rightarrow> category \<Rightarrow> category" where
  "applyCategoryUpdate u c =
     c\<lparr> cat_name := (case upd_name u of Some v \<Rightarrow> v | None \<Rightarrow> cat_name c),
        description := (case upd_description u of Some v \<Rightarrow> v | None \<Rightarrow> description c),
        sortOrder := (case upd_sortOrder u of Some v \<Rightarrow> v | None \<Rightarrow> sortOrder c),
        isActive := (case upd_isActive u of Some v \<Rightarrow> v | None \<Rightarrow> isActive c) \<rparr>"

text \<open>\<^verbatim>\<open>updateCategory\<close>; \<open>Inr None\<close> is the \<^verbatim>\<open>null\<close> returned for an unknown identifier.\<close>

definition updateCategory ::
    "string \<Rightarrow> categoryUpdate \<Rightarrow> store \<Rightarrow> (error + category option) \<times> store" where
  "updateCategory categoryId updateData st =
     (case readCategories st of
        Inl e \<Rightarrow> (Inl e, st)
      | Inr cs \<Rightarrow>
          (case findIndexById cat_id cs categoryId of
             None \<Rightarrow> (Inr None, st)
           | Some categoryIndex \<Rightarrow>
               (let updatedCategory =
                      (applyCategoryUpdate updateData (cs ! categoryIndex))
                        \<lparr>cat_id := categoryId\<rparr>
                in case writeCategories (cs[categoryIndex := updatedCategory]) st of
                     Inl e \<Rightarrow> (Inl e, st)
                   | Inr st' \<Rightarrow> (Inr (Some updatedCategory), st'))))"

definition deleteCategory :: "string \<Rightarrow> store \<Rightarrow> (error + bool) \<times> store" where
  "deleteCategory categoryId st =
     (case readDishes st of
        Inl e \<Rightarrow> (Inl e, st)
      | Inr ds \<Rightarrow>
          (let categoryDishes = filter (\<lambda>dish. dish_categoryId dish = categoryId) ds
           in if length categoryDishes > 0
              then (Inl (CategoryHasDishes (length categoryDishes)), st)
              else
                (case updateCategory categoryId
                        \<lparr> upd_name = None, upd_description = None, upd_sortOrder = None,
                          upd_isActive = Some False \<rparr> st of
                   (Inl e, st') \<Rightarrow> (Inl e, st')
                 | (Inr None, st') \<Rightarrow> (Inr False, st')
                 | (Inr (Some result), st') \<Rightarrow> (Inr True, st'))))"

text \<open>
  \<^verbatim>\<open>createInventoryEntry\<close>: the body of the \<^verbatim>\<open>try\<close> block, and the function itself, whose
  \<^verbatim>\<open>catch\<close> logs the error and returns normally.
\<close>

definition createInventoryEntry_try :: "string \<Rightarrow> int \<Rightarrow> store \<Rightarrow> (error + unit) \<times> store" where
  "createInventoryEntry_try newDishId initialStock st =
     (case readInventory st of
        Inl e \<Rightarrow> (Inl e, st)
      | Inr items \<Rightarrow>
          (case find (\<lambda>item. dishId item = newDishId) items of
             Some existingEntry \<Rightarrow> (Inr (), st)
           | None \<Rightarrow>
               (let newInventoryEntry =
                      \<lparr> dishId = newDishId, stock = initialStock, alertThreshold = Some 5,
                        supplier = Some [], cost = Some 0, expiryDate = None,
                        adjustmentReason = None, lastAdjustment = None \<rparr>
                in case writeInventory (items @ [newInventoryEntry]) st of
                     Inl e \<Rightarrow> (Inl e, st)
                   | Inr st' \<Rightarrow> (Inr (), st'))))"

definition createInventoryEntry :: "string \<Rightarrow> int \<Rightarrow> store \<Rightarrow> store" where
  "createInventoryEntry newDishId initialStock st =
     snd (createInventoryEntry_try newDishId initialStock st)"

text \<open>The body of a request to create a dish; \<open>None\<close> is a property not given.\<close>

record dishData =
  data_name :: "string option"
  data_categoryId :: "string option"
  data_price :: "real option"
  data_status :: "string option"
  data_stock :: "int option"

definition dishDataMissing :: "dishData \<Rightarrow> string \<Rightarrow> bool" where
  "dishDataMissing d field =
     (if field = ''name'' then data_name d = None \<or> data_name d = Some []
      else if field = ''categoryId'' then data_categoryId d = None \<or> data_categoryId d = Some []
      else if field = ''price'' then data_price d = None
      else True)"

text \<open>
  \<^verbatim>\<open>createDish\<close>. Once \<^verbatim>\<open>validateRequiredFields\<close> has passed, the three required properties
  are present, which is where \<open>the\<close> reads them.
\<close>

definition createDish :: "dishData \<Rightarrow> store \<Rightarrow> (error + dish) \<times> store" where
  "createDish dishData st =
     (case readDishes st of
        Inl e \<Rightarrow> (Inl e, st)
      | Inr ds \<Rightarrow>
          (case validateRequiredFields (dishDataMissing dishData)
                  [''name'', ''categoryId'', ''price''] of
             Inl e \<Rightarrow> (Inl e, st)
           | Inr u \<Rightarrow>
               (case getCategoryById (the (data_categoryId dishData)) st of
                  Inl e \<Rightarrow> (Inl e, st)
                | Inr None \<Rightarrow> (Inl (CategoryNotFound (the (data_categoryId dishData))), st)
                | Inr (Some category) \<Rightarrow>
                    (let newId = generateId ''dish_'' (map dish_id ds);
                         newDish =
                           \<lparr> dish_id = newId,
                             dish_categoryId = the (data_categoryId dishData),
                             dish_name = the (data_name dishData),
                             dish_price = the (data_price dishData),
                             dish_status = or_string (data_status dishData) ''on'',
                             dish_stock = or_int (data_stock dishData) 0 \<rparr>
                     in case writeDishes (ds @ [newDish]) st of
                          Inl e \<Rightarrow> (Inl e, st)
                        | Inr st' \<Rightarrow>
                            (Inr newDish,
                             createInventoryEntry newId (or_int (data_stock dishData) 0)
                               st')))))"

section \<open>Inventory service\<close>

definition getInventoryByDishId :: "string \<Rightarrow> store \<Rightarrow> error + inventoryItem option" where
  "getInventoryByDishId d st =
     (case readInventory st of
        Inl e \<Rightarrow> Inl e
      | Inr items \<Rightarrow> Inr (find (\<lambda>item. dishId item = d) items))"

text \<open>
  The third argument of \<^verbatim>\<open>updateDishStock\<close>: an object with some of six properties. A
  property is \<open>Absent\<close>, or \<open>Given\<close> with its value, which is \<open>None\<close> when the caller passes
  \<^verbatim>\<open>undefined\<close> under that key, as the controller does for what the request leaves out.
\<close>

datatype 'a property = Absent | Given "'a option"

fun valueOf :: "'a property \<Rightarrow> 'a option" where
  "valueOf Absent = None"
| "valueOf (Given v) = v"

text \<open>Object spread: a property that is given replaces the old value, whatever it holds.\<close>

fun spread :: "'a property \<Rightarrow> 'a option \<Rightarrow> 'a option" where
  "spread Absent old = old"
| "spread (Given v) old = v"

record additionalData =
  add_alertThreshold :: "int property"
  add_supplier :: "string property"
  add_cost :: "real property"
  add_expiryDate :: "string property"
  add_adjustmentReason :: "string property"
  add_lastAdjustment :: "int property"

text \<open>
  \<^verbatim>\<open>updateDishStockField\<close>: the body of the \<^verbatim>\<open>try\<close> block, and the function, whose \<^verbatim>\<open>catch\<close>
  logs the error and does not throw it again.
\<close>

definition updateDishStockField_try :: "string \<Rightarrow> int \<Rightarrow> store \<Rightarrow> (error + unit) \<times> store" where
  "updateDishStockField_try d newStock st =
     (case readDishes st of
        Inl e \<Rightarrow> (Inl e, st)
      | Inr ds \<Rightarrow>
          (case findIndexById dish_id ds d of
             None \<Rightarrow> (Inr (), st)
           | Some dishIndex \<Rightarrow>
               (case writeDishes (ds[dishIndex := (ds ! dishIndex)\<lparr>dish_stock := newStock\<rparr>]) st of
                  Inl e \<Rightarrow> (Inl e, st)
                | Inr st' \<Rightarrow> (Inr (), st'))))"

definition updateDishStockField :: "string \<Rightarrow> int \<Rightarrow> store \<Rightarrow> store" where
  "updateDishStockField d newStock st = snd (updateDishStockField_try d newStock st)"

definition updateDishStock ::
    "string \<Rightarrow> int \<Rightarrow> additionalData \<Rightarrow> store \<Rightarrow> (error + inventoryItem) \<times> store" where
  "updateDishStock d newStock additional st =
     (case readInventory st of
        Inl e \<Rightarrow> (Inl e, st)
      | Inr items \<Rightarrow>
          (case findIndex (\<lambda>item. dishId item = d) items of
             None \<Rightarrow>
               (let newInventoryItem =
                      \<lparr> dishId = d, stock = newStock,
                        alertThreshold = Some (or_int (valueOf (add_alertThreshold additional)) 5),
                        supplier = Some (or_string (valueOf (add_supplier additional)) []),
                        cost = Some (or_real (valueOf (add_cost additional)) 0),
                        expiryDate =
                          (case valueOf (add_expiryDate additional) of
                             Some v \<Rightarrow> if v = [] then None else Some v
                           | None \<Rightarrow> None),
                        adjustmentReason = None, lastAdjustment = None \<rparr>
                in case writeInventory (items @ [newInventoryItem]) st of
                     Inl e \<Rightarrow> (Inl e, st)
                   | Inr st' \<Rightarrow> (Inr newInventoryItem, updateDishStockField d newStock st'))
           | Some inventoryIndex \<Rightarrow>
               (let old = items ! inventoryIndex;
                    updatedInventoryItem =
                      old\<lparr> stock := newStock,
                           alertThreshold :=
                             spread (add_alertThreshold additional) (alertThreshold old),
                           supplier := spread (add_supplier additional) (supplier old),
                           cost := spread (add_cost additional) (cost old),
                           expiryDate := spread (add_expiryDate additional) (expiryDate old),
                           adjustmentReason :=
                             spread (add_adjustmentReason additional) (adjustmentReason old),
                           lastAdjustment :=
                             spread (add_lastAdjustment additional) (lastAdjustment old) \<rparr>
                in case writeInventory (items[inventoryIndex := updatedInventoryItem]) st of
                     Inl e \<Rightarrow> (Inl e, st)
                   | Inr st' \<Rightarrow>
                       (Inr updatedInventoryItem, updateDishStockField d newStock st'))))"

text \<open>An inventory item with the four properties \<^verbatim>\<open>getLowStockDishes\<close> adds from the dish.\<close>

record lowStockDish = inventoryItem +
  dishName :: string
  dishPrice :: real
  dishStatus :: string
  categoryId :: "string option"

text \<open>
  \<^verbatim>\<open>item.stock <= threshold\<close>, where the threshold is a number or \<^verbatim>\<open>undefined\<close>; a
  comparison with \<^verbatim>\<open>undefined\<close> is false.
\<close>

definition stock_le :: "int \<Rightarrow> int option \<Rightarrow> bool" where
  "stock_le s threshold = (case threshold of Some t \<Rightarrow> s \<le> t | None \<Rightarrow> False)"

text \<open>
  \<^verbatim>\<open>getLowStockDishes\<close>; \<open>None\<close> is the default \<^verbatim>\<open>null\<close> of the parameter. The sort compares
  the stock and is stable.
\<close>

definition getLowStockDishes :: "int option \<Rightarrow> store \<Rightarrow> error + lowStockDish list" where
  "getLowStockDishes customThreshold st =
     (case readInventory st of
        Inl e \<Rightarrow> Inl e
      | Inr items \<Rightarrow>
          (case readDishes st of
             Inl e \<Rightarrow> Inl e
           | Inr ds \<Rightarrow>
               (let lowStockInventory =
                      filter (\<lambda>item.
                                let threshold = or_undefined customThreshold (alertThreshold item)
                                in stock_le (stock item) threshold) items;
                    lowStockDishes =
                      map (\<lambda>inventoryItem.
                             let dish = findById dish_id ds (dishId inventoryItem)
                             in inventoryItem.extend inventoryItem
                                  (lowStockDish.fields
                                     (case dish of Some x \<Rightarrow> dish_name x | None \<Rightarrow> ''Unknown Dish'')
                                     (case dish of Some x \<Rightarrow> dish_price x | None \<Rightarrow> 0)
                                     (case dish of Some x \<Rightarrow> dish_status x | None \<Rightarrow> ''unknown'')
                                     (case dish of Some x \<Rightarrow> Some (dish_categoryId x) | None \<Rightarrow> None)))
                          lowStockInventory
                in Inr (sort_key stock lowStockDishes))))"



record syncResult =
  created :: nat
  updated :: nat
  total :: nat

text \<open>
  The loop of \<^verbatim>\<open>synchronizeInventory\<close> over the dishes. The source looks the record up with
  \<^verbatim>\<open>find\<close> and assigns to the object found; the model replaces the element at the index of
  the first match. A new record takes \<^verbatim>\<open>dish.stock || 0\<close>, which is the stock of a dish that
  has one.
\<close>

fun synchronizeLoop ::
    "dish list \<Rightarrow> inventoryItem list \<times> nat \<times> nat \<Rightarrow> inventoryItem list \<times> nat \<times> nat" where
  "synchronizeLoop [] acc = acc"
| "synchronizeLoop (dish # rest) (items, c, u) =
     synchronizeLoop rest
       (case findIndex (\<lambda>item. dishId item = dish_id dish) items of
          None \<Rightarrow>
            (items @
               [\<lparr> dishId = dish_id dish, stock = or_int (Some (dish_stock dish)) 0,
                  alertThreshold = Some 5, supplier = Some [], cost = Some 0,
                  expiryDate = None, adjustmentReason = None, lastAdjustment = None \<rparr>],
             c + 1, u)
        | Some i \<Rightarrow>
            if stock (items ! i) \<noteq> dish_stock dish
            then (items[i := (items ! i)\<lparr>stock := dish_stock dish\<rparr>], c, u + 1)
            else (items, c, u))"

definition synchronizeInventory :: "store \<Rightarrow> (error + syncResult) \<times> store" where
  "synchronizeInventory st =
     (case readDishes st of
        Inl e \<Rightarrow> (Inl e, st)
      | Inr ds \<Rightarrow>
          (case readInventory st of
             Inl e \<Rightarrow> (Inl e, st)
           | Inr items \<Rightarrow>
               (case synchronizeLoop ds (items, 0, 0) of
                  (items', c, u) \<Rightarrow>
                    (let result = \<lparr> created = c, updated = u, total = length items' \<rparr>
                     in if c > 0 \<or> u > 0
                        then (case writeInventory items' st of
                                Inl e \<Rightarrow> (Inl e, st)
                              | Inr st' \<Rightarrow> (Inr result, st'))
                        else (Inr result, st)))))"

text \<open>
  Every dish of the list has an inventory record, and the one found for it holds the dish's
  stock.
\<close>

definition inSync :: "dish list \<Rightarrow> inventoryItem list \<Rightarrow> bool" where
  "inSync ds items =
     list_all (\<lambda>dish.
         case find (\<lambda>item. dishId item = dish_id dish) items of
           Some item \<Rightarrow> stock item = dish_stock dish
         | None \<Rightarrow> False) ds"

section \<open>Sample data\<close>

text \<open>Concrete records and states at which the theorems below are evaluated.\<close>

text \<open>
  Order statistics with a revenue of 183 after 160 and no orders the day before, and
  order statistics with no revenue the day before and 10 orders after 8.
\<close>

definition sampleOrders :: orderStats where
  "sampleOrders =
     \<lparr> todayRevenue = Fin 183, yesterdayRevenue = Fin 160, todayOrders = Fin 10,
       yesterdayOrders = Fin 0, averageOrderValue = Fin 18 \<rparr>"

definition firstDayOrders :: orderStats where
  "firstDayOrders =
     \<lparr> todayRevenue = Fin 150, yesterdayRevenue = Fin 0, todayOrders = Fin 10,
       yesterdayOrders = Fin 8, averageOrderValue = Fin 15 \<rparr>"

text \<open>
  Promotions with a discount of 160 on a revenue of 183, with no discount (a positive and a
  negative zero, read from \<^verbatim>\<open>0\<close> and \<^verbatim>\<open>-0\<close>), and with no revenue.
\<close>

definition samplePromotions :: promotionStats where
  "samplePromotions =
     \<lparr> activePromotions =
         [\<lparr>promo_id = ''promo_1'', applicableDishes = [''dish_1''], totalOrders = Fin 10,
           totalRevenue = Fin 183, discountGiven = Fin 160,
           conversionRate = to_double (1 / 10)\<rparr>],
       completedPromotions =
         [\<lparr>promo_id = ''promo_2'', applicableDishes = [], totalOrders = Fin 10,
           totalRevenue = Fin 500, discountGiven = Fin 0,
           conversionRate = to_double (1 / 10)\<rparr>,
          \<lparr>promo_id = ''promo_3'', applicableDishes = [], totalOrders = Fin 0,
           totalRevenue = Fin 0, discountGiven = Fin 50,
           conversionRate = to_double (1 / 10)\<rparr>,
          \<lparr>promo_id = ''promo_4'', applicableDishes = [], totalOrders = Fin 10,
           totalRevenue = Fin 500, discountGiven = NegZero,
           conversionRate = to_double (1 / 10)\<rparr>] \<rparr>"

text \<open>
  The two review entries of the specification's example; the rating is the double read
  from the decimal.
\<close>

definition dishA :: dishReview where
  "dishA = \<lparr>dr_dishId = ''A'', averageRating = to_double (49 / 10), totalReviews = Fin 1\<rparr>"

definition dishB :: dishReview where
  "dishB = \<lparr>dr_dishId = ''B'', averageRating = to_double (45 / 10), totalReviews = Fin 200\<rparr>"

text \<open>Two review entries whose ratings are neighbouring doubles.\<close>

definition tieFirst :: dishReview where
  "tieFirst = \<lparr>dr_dishId = ''first'', averageRating = to_double (19 / 10), totalReviews = Fin 1\<rparr>"

definition tieSecond :: dishReview where
  "tieSecond =
     \<lparr>dr_dishId = ''second'',
      averageRating = to_double (19000000000000001 / 10000000000000000),
      totalReviews = Fin 1\<rparr>"

text \<open>Three months of reviews.\<close>

definition sampleTrend :: "monthlyEntry list" where
  "sampleTrend =
     [\<lparr>month = ''2023-12'', m_averageRating = Fin 1, m_totalReviews = Fin 7\<rparr>,
      \<lparr>month = ''2024-01'', m_averageRating = to_double (46 / 10), m_totalReviews = Fin 100\<rparr>,
      \<lparr>month = ''2024-02'', m_averageRating = to_double (47 / 10), m_totalReviews = Fin 150\<rparr>]"

text \<open>
  The specification's example state: category \<^verbatim>\<open>cat_1\<close> holds two dishes, both switched
  off; category \<^verbatim>\<open>cat_2\<close> holds none. \<^verbatim>\<open>dish_1\<close> has an inventory record with its stock
  below its alert threshold.
\<close>

definition sampleStore :: store where
  "sampleStore =
     \<lparr> categories =
         [\<lparr>cat_id = ''cat_1'', cat_name = ''Mains'', description = [], sortOrder = 1,
           isActive = True\<rparr>,
          \<lparr>cat_id = ''cat_2'', cat_name = ''Desserts'', description = [], sortOrder = 2,
           isActive = True\<rparr>],
       dishes =
         [\<lparr>dish_id = ''dish_1'', dish_categoryId = ''cat_1'', dish_name = ''Noodles'',
           dish_price = 12, dish_status = ''off'', dish_stock = 3\<rparr>,
          \<lparr>dish_id = ''dish_2'', dish_categoryId = ''cat_1'', dish_name = ''Rice'',
           dish_price = 8, dish_status = ''off'', dish_stock = 0\<rparr>],
       inventory =
         [\<lparr>dishId = ''dish_1'', stock = 3, alertThreshold = Some 5, supplier = Some [],
           cost = Some 0, expiryDate = None, adjustmentReason = None,
           lastAdjustment = None\<rparr>],
       unreadable = {},
       unwritable = {} \<rparr>"

text \<open>An \<^verbatim>\<open>additionalData\<close> object without properties.\<close>

definition noAdditionalData :: additionalData where
  "noAdditionalData =
     \<lparr> add_alertThreshold = Absent, add_supplier = Absent, add_cost = Absent,
       add_expiryDate = Absent, add_adjustmentReason = Absent, add_lastAdjustment = Absent \<rparr>"

text \<open>The example state with a dishes file that can be read but not written.\<close>

definition dishesReadOnly :: store where
  "dishesReadOnly = sampleStore\<lparr>unwritable := {dishesFile}\<rparr>"

text \<open>
  A menu without dishes, and the same state after
  \<^verbatim>\<open>PUT /api/merchant/dish/dish_1/stock\<close> with a stock of 9: the controller checks the form
  of the identifier only, and \<^verbatim>\<open>updateDishStock\<close> creates the inventory record of a dish
  that does not exist.
\<close>

definition emptyMenu :: store where
  "emptyMenu =
     \<lparr> categories =
         [\<lparr>cat_id = ''cat_1'', cat_name = ''Mains'', description = [], sortOrder = 1,
           isActive = True\<rparr>],
       dishes = [],
       inventory = [],
       unreadable = {},
       unwritable = {} \<rparr>"

definition orphanStore :: store where
  "orphanStore =
     emptyMenu\<lparr>inventory :=
       [\<lparr>dishId = ''dish_1'', stock = 9, alertThreshold = Some 5, supplier = Some [],
         cost = Some 0, expiryDate = None, adjustmentReason = None,
         lastAdjustment = None\<rparr>]\<rparr>"

text \<open>A request to create a dish in \<^verbatim>\<open>cat_1\<close> with an initial stock of 3.\<close>

definition soup :: dishData where
  "soup =
     \<lparr> data_name = Some ''Soup'', data_categoryId = Some ''cat_1'', data_price = Some 6,
       data_status = None, data_stock = Some 3 \<rparr>"

text \<open>
  The example state with an inventory that has fallen behind: the record of \<^verbatim>\<open>dish_1\<close> holds
  8 where the dish holds 3, and \<^verbatim>\<open>dish_2\<close> has no record.
\<close>

definition staleStore :: store where
  "staleStore =
     sampleStore\<lparr>inventory :=
       [\<lparr>dishId = ''dish_1'', stock = 8, alertThreshold = Some 5, supplier = Some [],
         cost = Some 0, expiryDate = None, adjustmentReason = None,
         lastAdjustment = None\<rparr>]\<rparr>"


text \<open>
  A dishes file in which two entries carry the identifier \<^verbatim>\<open>dish_1\<close>, with stocks 3 and 5,
  and an empty inventory. \<^verbatim>\<open>createDish\<close> never assigns an identifier twice, but the store
  reads whatever the file holds.
\<close>

definition duplicateIds :: store where
  "duplicateIds =
     \<lparr> categories =
         [\<lparr>cat_id = ''cat_1'', cat_name = ''Mains'', description = [], sortOrder = 1,
           isActive = True\<rparr>],
       dishes =
         [\<lparr>dish_id = ''dish_1'', dish_categoryId = ''cat_1'', dish_name = ''Noodles'',
           dish_price = 12, dish_status = ''on'', dish_stock = 3\<rparr>,
          \<lparr>dish_id = ''dish_1'', dish_categoryId = ''cat_1'', dish_name = ''Rice'',
           dish_price = 8, dish_status = ''on'', dish_stock = 5\<rparr>],
       inventory = [],
       unreadable = {},
       unwritable = {} \<rparr>"

section \<open>Rounding to the nearest double\<close>

lemma power_int_two_step: "(2::real) powi (k + 1) = 2 powi k * 2"
  by (simp add: power_int_add)

lemma binade_between:
  "x \<noteq> 0 \<Longrightarrow> 2 powi (binade x) \<le> \<bar>x\<bar> \<and> \<bar>x\<bar> < 2 powi (binade x + 1)"
proof (induction x rule: binade.induct)
  case (1 x)
  show ?case
  proof (cases "2 \<le> \<bar>x\<bar>")
    case True
    define b where "b = binade (x / 2)"
    from 1 True have "2 powi b \<le> \<bar>x / 2\<bar> \<and> \<bar>x / 2\<bar> < 2 powi (b + 1)"
      unfolding b_def by simp
    then have "2 powi b * 2 \<le> \<bar>x\<bar>" "\<bar>x\<bar> < 2 powi (b + 1) * 2"
      by simp_all
    moreover have "binade x = b + 1"
      using True 1(3) by (simp add: binade.simps [of x] b_def)
    ultimately show ?thesis
      using power_int_two_step [of b] power_int_two_step [of "b + 1"] by simp
  next
    case big: False
    show ?thesis
    proof (cases "\<bar>x\<bar> < 1")
      case True
      define b where "b = binade (x * 2)"
      from 1 big True have "2 powi b \<le> \<bar>x * 2\<bar> \<and> \<bar>x * 2\<bar> < 2 powi (b + 1)"
        unfolding b_def by simp
      then have "2 powi b \<le> \<bar>x\<bar> * 2" "\<bar>x\<bar> * 2 < 2 powi (b + 1)"
        by (simp_all add: abs_mult)
      moreover have "binade x = b - 1"
        using True big 1(3) by (simp add: binade.simps [of x] b_def)
      ultimately show ?thesis
        using power_int_two_step [of "b - 1"] power_int_two_step [of b] by simp
    next
      case False
      with big 1(3) have "binade x = 0"
        by (simp add: binade.simps [of x])
      with False big show ?thesis
        by simp
    qed
  qed
qed

lemma power_int_le_nonzero:
  assumes "2 powi k \<le> \<bar>x::real\<bar>"
  shows "x \<noteq> 0"
proof -
  have "0 < (2::real) powi k"
    by simp
  then have "0 < \<bar>x\<bar>"
    using assms by linarith
  then show ?thesis
    by auto
qed

lemma binade_bounds:
  assumes "x \<noteq> 0"
  shows "2 powi (binade x) \<le> \<bar>x\<bar>" and "\<bar>x\<bar> < 2 powi (binade x + 1)"
  using binade_between [OF assms] by simp_all

lemma binade_eq:
  assumes "2 powi k \<le> \<bar>x\<bar>" and "\<bar>x\<bar> < 2 powi (k + 1)"
  shows "binade x = k"
proof -
  have "x \<noteq> 0"
    using assms(1) by (rule power_int_le_nonzero)
  from binade_between [OF this] have b: "2 powi (binade x) \<le> \<bar>x\<bar>" "\<bar>x\<bar> < 2 powi (binade x + 1)"
    by simp_all
  have "(2::real) powi k < 2 powi (binade x + 1)"
    using assms(1) b(2) by linarith
  then have "k < binade x + 1"
    using power_int_increasing [of "binade x + 1" k "2::real"] by (cases "k < binade x + 1") auto
  moreover have "(2::real) powi (binade x) < 2 powi (k + 1)"
    using assms(2) b(1) by linarith
  then have "binade x < k + 1"
    using power_int_increasing [of "k + 1" "binade x" "2::real"] by (cases "binade x < k + 1") auto
  ultimately show ?thesis
    by simp
qed

lemma binade_ge:
  assumes "2 powi k \<le> \<bar>x\<bar>"
  shows "k \<le> binade x"
proof (rule ccontr)
  assume "\<not> k \<le> binade x"
  then have "binade x + 1 \<le> k"
    by simp
  then have "(2::real) powi (binade x + 1) \<le> 2 powi k"
    by (simp add: power_int_increasing)
  moreover have "x \<noteq> 0"
    using assms by (rule power_int_le_nonzero)
  ultimately show False
    using binade_bounds(2) [of x] assms by linarith
qed

lemma binade_less:
  assumes "x \<noteq> 0" and "\<bar>x\<bar> < 2 powi k"
  shows "binade x < k"
proof (rule ccontr)
  assume "\<not> binade x < k"
  then have "(2::real) powi k \<le> 2 powi (binade x)"
    by (simp add: power_int_increasing)
  then show False
    using binade_bounds(1) [OF assms(1)] assms(2) by linarith
qed

text \<open>The rounding of a real whose binary exponent is known, for evaluation.\<close>

lemma round_double_eval:
  assumes "2 powi k \<le> \<bar>x\<bar>" and "\<bar>x\<bar> < 2 powi (k + 1)"
  shows "round_double x =
           of_int (nearest_even (x / 2 powi (max k (- 1022) - 52))) * 2 powi (max k (- 1022) - 52)"
  using power_int_le_nonzero [OF assms(1)]
  by (simp add: round_double_def ulp_def binade_eq [OF assms])

lemma to_double_eval:
  assumes "round_double x = r" and "r \<noteq> 0" and "\<bar>r\<bar> < 2 ^ 1024"
  shows "to_double x = Fin r"
  using assms by (simp add: to_double_def)

lemma nearest_even_of_int: "nearest_even (of_int m) = m"
  by (simp add: nearest_even_def)

lemma nearest_even_close: "\<bar>of_int (nearest_even y) - y\<bar> \<le> 1 / 2"
proof -
  define f where "f = \<lfloor>y\<rfloor>"
  have "of_int f \<le> y" "y < of_int f + 1"
    unfolding f_def by linarith+
  then show ?thesis
    unfolding nearest_even_def Let_def f_def [symmetric] by (simp add: abs_if)
qed

lemma ulp_pos: "0 < ulp x"
  by (simp add: ulp_def)

text \<open>Rounding moves a real by at most half the spacing of the doubles around it.\<close>

lemma round_double_close: "\<bar>round_double x - x\<bar> \<le> ulp x / 2"
proof (cases "x = 0")
  case True
  then show ?thesis
    using ulp_pos [of x] by (simp add: round_double_def)
next
  case False
  define u where "u = ulp x"
  have u: "0 < u"
    unfolding u_def by (rule ulp_pos)
  have "\<bar>of_int (nearest_even (x / u)) - x / u\<bar> \<le> 1 / 2"
    by (rule nearest_even_close)
  then have "\<bar>of_int (nearest_even (x / u)) - x / u\<bar> * u \<le> 1 / 2 * u"
    using u by (simp add: mult_right_mono)
  moreover have "\<bar>of_int (nearest_even (x / u)) - x / u\<bar> * u
      = \<bar>of_int (nearest_even (x / u)) * u - x\<bar>"
    using u abs_mult_pos [of u "of_int (nearest_even (x / u)) - x / u"]
    by (simp add: left_diff_distrib)
  ultimately show ?thesis
    using False by (simp add: round_double_def u_def)
qed

text \<open>Above the subnormal range the relative error is at most \<open>2 ^ - 53\<close>.\<close>

lemma round_double_error:
  assumes "2 powi (- 1022) \<le> \<bar>x\<bar>"
  shows "\<bar>round_double x - x\<bar> \<le> \<bar>x\<bar> / 2 ^ 53"
proof -
  have k: "- 1022 \<le> binade x"
    using assms by (rule binade_ge)
  have "x \<noteq> 0"
    using assms by (rule power_int_le_nonzero)
  then have "2 powi (binade x) \<le> \<bar>x\<bar>"
    by (rule binade_bounds)
  moreover have "ulp x = 2 powi (binade x) / 2 ^ 52"
    using k by (simp add: ulp_def max_def power_int_diff)
  ultimately have "ulp x / 2 \<le> \<bar>x\<bar> / 2 ^ 53"
    by (simp add: field_simps)
  then show ?thesis
    using round_double_close [of x] by linarith
qed

lemma to_double_normal:
  assumes "1 \<le> x" and "x \<le> 1024"
  shows "\<exists>r. to_double x = Fin r \<and> \<bar>r - x\<bar> \<le> x / 2 ^ 53"
proof -
  have "(2::real) powi (- 1022) \<le> 2 powi 0"
    by (intro power_int_increasing) simp_all
  then have "2 powi (- 1022) \<le> \<bar>x\<bar>"
    using assms(1) by simp
  then have e: "\<bar>round_double x - x\<bar> \<le> x / 2 ^ 53"
    using round_double_error [of x] assms(1) by simp
  have "x / 2 ^ 53 \<le> x / 2"
    using assms(1) by (intro divide_left_mono) simp_all
  with e have b: "x / 2 \<le> round_double x" "round_double x \<le> 2 * x"
    using assms(1) by linarith+
  then have "round_double x \<noteq> 0" "\<bar>round_double x\<bar> \<le> 2048"
    using assms by linarith+
  moreover have "(2048::real) < 2 ^ 1024"
    by simp
  ultimately have "to_double x = Fin (round_double x)"
    by (intro to_double_eval) simp_all
  with e show ?thesis
    by blast
qed

text \<open>Integers up to \<open>2 ^ 53\<close> in magnitude are doubles.\<close>

lemma round_double_of_int:
  assumes "\<bar>n\<bar> \<le> 2 ^ 53"
  shows "round_double (of_int n) = of_int n"
proof (cases "n = 0")
  case True
  then show ?thesis
    by (simp add: round_double_def)
next
  case False
  define k where "k = binade (of_int n)"
  have "(2::real) powi 0 \<le> \<bar>of_int n\<bar>"
    using False by (simp add: abs_if)
  then have k0: "0 \<le> k"
    unfolding k_def by (rule binade_ge)
  have hi: "k \<le> 53"
  proof (cases "\<bar>n\<bar> = 2 ^ 53")
    case True
    then have "(2::real) powi 53 \<le> \<bar>of_int n\<bar>" "\<bar>of_int n :: real\<bar> < 2 powi (53 + 1)"
      by (simp_all add: abs_if split: if_splits)
    then show ?thesis
      unfolding k_def using binade_eq [of 53 "of_int n"] by simp
  next
    case False
    then have "\<bar>n\<bar> < 2 ^ 53"
      using assms by simp
    then have "\<bar>of_int n :: real\<bar> < 2 powi 53"
      by (simp add: abs_if split: if_splits)
    moreover have "(of_int n :: real) \<noteq> 0"
      using \<open>n \<noteq> 0\<close> by simp
    ultimately show ?thesis
      unfolding k_def using binade_less [of "of_int n" 53] by simp
  qed
  show ?thesis
  proof (cases "k = 53")
    case True
    have "(2::real) powi 53 \<le> \<bar>of_int n\<bar>"
      using binade_bounds(1) [of "of_int n"] \<open>n \<noteq> 0\<close> True by (simp add: k_def)
    then have "2 ^ 53 \<le> \<bar>n\<bar>"
      by (simp add: abs_if split: if_splits)
    then have "n = 2 * 2 ^ 52 \<or> n = 2 * (- (2 ^ 52))"
      using assms by (simp add: abs_if split: if_splits)
    moreover have "ulp (of_int n) = 2"
      using True by (simp add: ulp_def k_def [symmetric])
    ultimately show ?thesis
      using \<open>n \<noteq> 0\<close> nearest_even_of_int [of "2 ^ 52"] nearest_even_of_int [of "- (2 ^ 52)"]
      by (auto simp add: round_double_def)
  next
    case False
    then have k52: "k \<le> 52"
      using hi by simp
    define j where "j = nat (52 - k)"
    have u: "ulp (of_int n) = 1 / 2 ^ j"
      using k0 k52 by (simp add: ulp_def k_def [symmetric] j_def power_int_def power_one_over)
    have "of_int n / (1 / 2 ^ j) = (of_int (n * 2 ^ j) :: real)"
      by simp
    then have "nearest_even (of_int n / (1 / 2 ^ j)) = n * 2 ^ j"
      using nearest_even_of_int [of "n * 2 ^ j"] by simp
    then show ?thesis
      using \<open>n \<noteq> 0\<close> by (simp add: round_double_def u)
  qed
qed

lemma to_double_of_int:
  assumes "\<bar>n\<bar> \<le> 2 ^ 53"
  shows "to_double (of_int n) = Fin (of_int n)"
proof -
  have "\<bar>of_int n :: real\<bar> \<le> 2 ^ 53"
    using assms by (metis of_int_abs of_int_le_numeral_power_cancel_iff)
  moreover have "(2::real) ^ 53 < 2 ^ 1024"
    by simp
  ultimately show ?thesis
    using round_double_of_int [OF assms] by (simp add: to_double_def Let_def)
qed

text \<open>
  \<^verbatim>\<open>toFixed(2)\<close> below \<open>10^21\<close> prints the number of hundredths nearest to the magnitude.
\<close>

lemma toFixed_two_decimals:
  assumes "\<bar>v\<bar> < 10 ^ 21"
  shows "\<exists>n. toFixed (Fin v) = JsDecimal (v < 0) n \<and> \<bar>real n / 100 - \<bar>v\<bar>\<bar> \<le> 1 / 200"
proof -
  define n where "n = \<lfloor>\<bar>v\<bar> * 100 + 1 / 2\<rfloor>"
  have "of_int n \<le> \<bar>v\<bar> * 100 + 1 / 2" and "\<bar>v\<bar> * 100 + 1 / 2 < of_int n + 1"
    unfolding n_def by linarith+
  moreover have "0 \<le> n"
    unfolding n_def by simp
  then have "real (nat n) = of_int n"
    by simp
  ultimately have "\<bar>real (nat n) / 100 - \<bar>v\<bar>\<bar> \<le> 1 / 200"
    by linarith
  moreover have "toFixed (Fin v) = JsDecimal (v < 0) (nat n)"
    using assms by (simp add: n_def)
  ultimately show ?thesis
    by blast
qed

lemma to_double_relative:
  assumes "1 / 2 ^ 1022 \<le> \<bar>x\<bar>" and "\<bar>x\<bar> \<le> 2 ^ 1023"
  shows "\<exists>r. to_double x = Fin r \<and> \<bar>r - x\<bar> \<le> \<bar>x\<bar> / 2 ^ 53"
proof -
  have "2 powi (- 1022) \<le> \<bar>x\<bar>"
    using assms(1) by (simp add: power_int_minus inverse_eq_divide)
  then have e: "\<bar>round_double x - x\<bar> \<le> \<bar>x\<bar> / 2 ^ 53"
    by (rule round_double_error)
  have pos: "0 < \<bar>x\<bar>"
    using assms(1) by (smt (verit) divide_pos_pos zero_less_power)
  have "\<bar>x\<bar> / 2 ^ 53 \<le> \<bar>x\<bar> / 2"
    by (intro divide_left_mono) simp_all
  with e pos have "round_double x \<noteq> 0"
    by linarith
  moreover have "\<bar>round_double x\<bar> \<le> \<bar>x\<bar> + \<bar>x\<bar> / 2 ^ 53"
    using e by linarith
  then have "\<bar>round_double x\<bar> \<le> 2 ^ 1023 + 2 ^ 1023 / 2 ^ 53"
    using assms(2) by (smt (verit) divide_right_mono zero_le_power)
  then have "\<bar>round_double x\<bar> < 2 ^ 1024"
    by simp
  ultimately have "to_double x = Fin (round_double x)"
    by (intro to_double_eval) simp_all
  with e show ?thesis
    by blast
qed

text \<open>An error of one rounding on top of an error already made.\<close>

lemma relative_error_step:
  fixes x e r a u :: real
  assumes "\<bar>x - e\<bar> \<le> \<bar>e\<bar> * a" and "\<bar>r - x\<bar> \<le> \<bar>x\<bar> * u" and "0 \<le> a" and "0 \<le> u"
  shows "\<bar>r - e\<bar> \<le> \<bar>e\<bar> * (a + u + a * u)"
proof -
  have "\<bar>x\<bar> - \<bar>e\<bar> \<le> \<bar>x - e\<bar>"
    by linarith
  then have "\<bar>x\<bar> \<le> \<bar>e\<bar> + \<bar>e\<bar> * a"
    using assms(1) by linarith
  then have "\<bar>x\<bar> * u \<le> (\<bar>e\<bar> + \<bar>e\<bar> * a) * u"
    using assms(4) by (rule mult_right_mono)
  then have "\<bar>r - x\<bar> \<le> \<bar>e\<bar> * u + \<bar>e\<bar> * (a * u)"
    using assms(2) by (simp add: algebra_simps)
  moreover have "\<bar>r - e\<bar> \<le> \<bar>r - x\<bar> + \<bar>x - e\<bar>"
    by linarith
  ultimately have "\<bar>r - e\<bar> \<le> \<bar>e\<bar> * a + \<bar>e\<bar> * u + \<bar>e\<bar> * (a * u)"
    using assms(1) by linarith
  then show ?thesis
    by (simp add: algebra_simps)
qed

text \<open>
  The percentage \<^verbatim>\<open>(t - y) / y * 100\<close> in double arithmetic, three roundings away from the
  exact value: where \<open>y\<close> and \<open>t - y\<close> lie between \<open>2 ^ - 100\<close> and \<open>2 ^ 100\<close> in magnitude no
  intermediate result leaves the normal range, and the relative error is below \<open>2 ^ - 51\<close>.
\<close>

lemma percent_change_accurate:
  assumes y: "1 / 2 ^ 100 \<le> \<bar>y\<bar>" "\<bar>y\<bar> \<le> 2 ^ 100"
    and a: "1 / 2 ^ 100 \<le> \<bar>t - y\<bar>" "\<bar>t - y\<bar> \<le> 2 ^ 100"
  shows "\<exists>v. js_mul (js_div (js_sub (Fin t) (Fin y)) (Fin y)) (Fin 100) = Fin v
           \<and> \<bar>v - (t - y) / y * 100\<bar> \<le> \<bar>(t - y) / y * 100\<bar> / 2 ^ 51"
proof -
  define u :: real where "u = 1 / 2 ^ 53"
  define d where "d = t - y"
  define e where "e = d / y"
  have u: "0 \<le> u" "u \<le> 1 / 2"
    by (simp_all add: u_def)
  have y0: "0 < \<bar>y\<bar>" and d0: "0 < \<bar>d\<bar>"
    using y(1) a(1) unfolding d_def by (smt (verit) divide_pos_pos zero_less_power)+
  then have y_ne: "y \<noteq> 0"
    by auto
  \<comment> \<open>the difference\<close>
  have "\<exists>r. js_sub (Fin t) (Fin y) = Fin r \<and> \<bar>r - d\<bar> \<le> \<bar>d\<bar> * u"
  proof (cases "t = 0")
    case True
    then show ?thesis
      using y_ne u(1) by (simp add: js_sub_def d_def)
  next
    case False
    have "1 / 2 ^ 1022 \<le> (1 / 2 ^ 100 :: real)" "(2 ^ 100 :: real) \<le> 2 ^ 1023"
      by simp_all
    then have "1 / 2 ^ 1022 \<le> \<bar>d\<bar>" "\<bar>d\<bar> \<le> 2 ^ 1023"
      using a unfolding d_def by linarith+
    from to_double_relative [OF this] obtain r where
      "to_double d = Fin r" "\<bar>r - d\<bar> \<le> \<bar>d\<bar> / 2 ^ 53"
      by blast
    then show ?thesis
      using False y_ne by (auto simp: js_sub_def d_def u_def)
  qed
  then obtain r1 where r1: "js_sub (Fin t) (Fin y) = Fin r1" and e1: "\<bar>r1 - d\<bar> \<le> \<bar>d\<bar> * u"
    by blast
  have "\<bar>d\<bar> * u \<le> \<bar>d\<bar> * (1 / 2)"
    using u(2) by (intro mult_left_mono) simp_all
  with e1 have b1: "\<bar>d\<bar> / 2 \<le> \<bar>r1\<bar>" "\<bar>r1\<bar> \<le> 2 * \<bar>d\<bar>"
    by linarith+
  then have r1_ne: "r1 \<noteq> 0"
    using d0 by auto
  \<comment> \<open>the quotient\<close>
  define x where "x = r1 / y"
  have x_abs: "\<bar>x\<bar> = \<bar>r1\<bar> / \<bar>y\<bar>"
    by (simp add: x_def)
  have "1 / 2 ^ 101 \<le> \<bar>r1\<bar>" "\<bar>r1\<bar> \<le> 2 ^ 101"
    using b1 a unfolding d_def by simp_all
  then have "1 / 2 ^ 101 / 2 ^ 100 \<le> \<bar>r1\<bar> / \<bar>y\<bar>" "\<bar>r1\<bar> / \<bar>y\<bar> \<le> 2 ^ 101 / (1 / 2 ^ 100)"
    using y y0 by (intro frac_le; simp)+
  then have bx: "1 / 2 ^ 201 \<le> \<bar>x\<bar>" "\<bar>x\<bar> \<le> 2 ^ 201"
    unfolding x_abs by simp_all
  have "1 / 2 ^ 1022 \<le> (1 / 2 ^ 201 :: real)" "(2 ^ 201 :: real) \<le> 2 ^ 1023"
    by simp_all
  then have "1 / 2 ^ 1022 \<le> \<bar>x\<bar>" "\<bar>x\<bar> \<le> 2 ^ 1023"
    using bx by linarith+
  from to_double_relative [OF this] obtain r2 where
    r2: "to_double x = Fin r2" and e2: "\<bar>r2 - x\<bar> \<le> \<bar>x\<bar> * u"
    by (auto simp: u_def)
  have q: "js_div (Fin r1) (Fin y) = Fin r2"
    using r1_ne y_ne r2 by (simp add: js_div_def x_def)
  have "x - e = (r1 - d) / y"
    by (simp add: x_def e_def diff_divide_distrib)
  then have "\<bar>x - e\<bar> = \<bar>r1 - d\<bar> / \<bar>y\<bar>"
    by (simp only: abs_divide)
  also have "\<dots> \<le> \<bar>d\<bar> * u / \<bar>y\<bar>"
    using e1 y0 by (intro divide_right_mono) simp_all
  also have "\<dots> = \<bar>e\<bar> * u"
    by (simp add: e_def)
  finally have "\<bar>x - e\<bar> \<le> \<bar>e\<bar> * u" .
  from relative_error_step [OF this e2 u(1) u(1)]
  have e2': "\<bar>r2 - e\<bar> \<le> \<bar>e\<bar> * (u + u + u * u)" .
  have "\<bar>x\<bar> * u \<le> \<bar>x\<bar> * (1 / 2)"
    using u(2) by (intro mult_left_mono) simp_all
  with e2 have b2: "\<bar>x\<bar> / 2 \<le> \<bar>r2\<bar>" "\<bar>r2\<bar> \<le> 2 * \<bar>x\<bar>"
    by linarith+
  then have r2_ne: "r2 \<noteq> 0"
    using bx(1) by (smt (verit) divide_pos_pos zero_less_power)
  \<comment> \<open>the product\<close>
  have "1 / 2 ^ 202 \<le> \<bar>r2\<bar>" "\<bar>r2\<bar> \<le> 2 ^ 202"
    using b2 bx by simp_all
  moreover have "1 / 2 ^ 1022 \<le> (1 / 2 ^ 202 * 100 :: real)" "(2 ^ 202 * 100 :: real) \<le> 2 ^ 1023"
    by simp_all
  ultimately have "1 / 2 ^ 1022 \<le> \<bar>r2 * 100\<bar>" "\<bar>r2 * 100\<bar> \<le> 2 ^ 1023"
    by (simp_all add: abs_mult)
  from to_double_relative [OF this] obtain v where
    v: "to_double (r2 * 100) = Fin v" and e3: "\<bar>v - r2 * 100\<bar> \<le> \<bar>r2 * 100\<bar> * u"
    by (auto simp: u_def)
  have p: "js_mul (Fin r2) (Fin 100) = Fin v"
    using r2_ne v by (simp add: js_mul_def)
  have "r2 * 100 - e * 100 = (r2 - e) * 100"
    by (simp add: algebra_simps)
  then have "\<bar>r2 * 100 - e * 100\<bar> = \<bar>r2 - e\<bar> * 100"
    by (simp only: abs_mult abs_numeral)
  also have "\<dots> \<le> \<bar>e\<bar> * (u + u + u * u) * 100"
    using e2' by (intro mult_right_mono) simp_all
  also have "\<dots> = \<bar>e * 100\<bar> * (u + u + u * u)"
    by (simp add: abs_mult)
  finally have "\<bar>r2 * 100 - e * 100\<bar> \<le> \<bar>e * 100\<bar> * (u + u + u * u)" .
  from relative_error_step [OF this e3 _ u(1)] u(1)
  have "\<bar>v - e * 100\<bar> \<le> \<bar>e * 100\<bar> * (u + u + u * u + u + (u + u + u * u) * u)"
    by simp
  also have "\<dots> \<le> \<bar>e * 100\<bar> * (1 / 2 ^ 51)"
    by (intro mult_left_mono) (simp_all add: u_def)
  finally have "\<bar>v - e * 100\<bar> \<le> \<bar>e * 100\<bar> / 2 ^ 51"
    by simp
  with r1 q p show ?thesis
    unfolding e_def d_def by auto
qed

section \<open>Growth rates of the order statistics\<close>

text \<open>The first sample record: \<^verbatim>\<open>(183 - 160) / 160 * 100\<close> in double arithmetic.\<close>

lemma fin_183_minus_160: "js_sub (Fin 183) (Fin 160) = Fin 23"
  using to_double_of_int [of 23] by (simp add: js_sub_def)

lemma fin_23_by_160: "js_div (Fin 23) (Fin 160) = Fin (5179139571476070 / 2 ^ 55)"
proof -
  have "round_double (23 / 160) = 5179139571476070 / 2 ^ 55"
    using round_double_eval [of "- 3" "23 / 160"] by (simp add: nearest_even_def)
  then have "to_double (23 / 160) = Fin (5179139571476070 / 2 ^ 55)"
    by (intro to_double_eval) simp_all
  then show ?thesis
    by (simp add: js_div_def)
qed

lemma fin_percent_183_160:
  "js_mul (js_div (js_sub (Fin 183) (Fin 160)) (Fin 160)) (Fin 100) =
     Fin (8092405580431359 / 2 ^ 49)"
proof -
  have "round_double (5179139571476070 / 2 ^ 55 * 100) = 8092405580431359 / 2 ^ 49"
    using round_double_eval [of 3 "5179139571476070 / 2 ^ 55 * 100"]
    by (simp add: nearest_even_def)
  then have "to_double (5179139571476070 / 2 ^ 55 * 100) = Fin (8092405580431359 / 2 ^ 49)"
    by (intro to_double_eval) simp_all
  then show ?thesis
    by (simp add: fin_183_minus_160 fin_23_by_160 js_mul_def)
qed

lemma toFixed_percent_183_160: "toFixed (Fin (8092405580431359 / 2 ^ 49)) = JsDecimal False 1437"
  by simp

lemma fin_percent_10_8:
  "js_mul (js_div (js_sub (Fin 10) (Fin 8)) (Fin 8)) (Fin 100) = Fin 25"
proof -
  have "round_double (2 / 8) = 1 / 4"
    using round_double_eval [of "- 2" "2 / 8"] by (simp add: nearest_even_def)
  then have "to_double (2 / 8) = Fin (1 / 4)"
    by (intro to_double_eval) simp_all
  then show ?thesis
    using to_double_of_int [of 2] to_double_of_int [of 25] by (simp add: js_sub_def js_div_def js_mul_def)
qed

lemma parseFloat_toFixed_two_decimals:
  assumes "x = Fin v" and "\<bar>v\<bar> < 10 ^ 21"
  shows "\<exists>n. \<bar>real n / 100 - \<bar>v\<bar>\<bar> \<le> 1 / 200
           \<and> parseFloat (toFixed x) =
               (if v < 0 then js_neg (to_double (real n / 100)) else to_double (real n / 100))"
proof -
  from toFixed_two_decimals [OF assms(2)] obtain n where
    "toFixed (Fin v) = JsDecimal (v < 0) n" and "\<bar>real n / 100 - \<bar>v\<bar>\<bar> \<le> 1 / 200"
    by blast
  then show ?thesis
    using assms(1) by (intro exI [of _ n]) simp
qed

text \<open>
  Claim C6. For every order statistics record: when \<open>yesterdayRevenue > 0\<close>, the revenue
  growth rate is \<open>(todayRevenue - yesterdayRevenue) / yesterdayRevenue * 100\<close>, each operation
  rounded to a double as JavaScript does, then rounded to two decimals by \<^verbatim>\<open>toFixed(2)\<close> and
  read back: if that product is a finite \<open>v\<close> below \<open>10^21\<close> in magnitude, the rate is the
  double nearest to \<open>n / 100\<close> for a number of hundredths \<open>n\<close> within half a hundredth of
  \<open>\<bar>v\<bar>\<close>, with the sign of \<open>v\<close>; and where the two revenues are finite, with
  \<open>yesterdayRevenue\<close> and the difference between \<open>2 ^ - 100\<close> and \<open>2 ^ 100\<close> in magnitude, \<open>v\<close>
  is within a relative error of \<open>2 ^ - 51\<close> of the exact quotient. When \<open>yesterdayRevenue\<close> is
  zero the rate is exactly 0. The order growth rate satisfies the same with the order
  counts.
\<close>

theorem growth_rate_rounded_or_zero:
  "(js_less (Fin 0) (yesterdayRevenue os) \<longrightarrow>
      revenueGrowthRate (getOrderStatistics os) =
        parseFloat (toFixed (js_mul
          (js_div (js_sub (todayRevenue os) (yesterdayRevenue os)) (yesterdayRevenue os))
          (Fin 100)))
      \<and> (\<forall>v. js_mul
               (js_div (js_sub (todayRevenue os) (yesterdayRevenue os)) (yesterdayRevenue os))
               (Fin 100) = Fin v \<and> \<bar>v\<bar> < 10 ^ 21 \<longrightarrow>
            (\<exists>n. \<bar>real n / 100 - \<bar>v\<bar>\<bar> \<le> 1 / 200
               \<and> revenueGrowthRate (getOrderStatistics os) =
                   (if v < 0 then js_neg (to_double (real n / 100))
                    else to_double (real n / 100))))
      \<and> (\<forall>t y. todayRevenue os = Fin t \<and> yesterdayRevenue os = Fin y
               \<and> 1 / 2 ^ 100 \<le> y \<and> y \<le> 2 ^ 100
               \<and> 1 / 2 ^ 100 \<le> \<bar>t - y\<bar> \<and> \<bar>t - y\<bar> \<le> 2 ^ 100 \<longrightarrow>
            (\<exists>v. js_mul
                   (js_div (js_sub (todayRevenue os) (yesterdayRevenue os)) (yesterdayRevenue os))
                   (Fin 100) = Fin v
               \<and> \<bar>v - (t - y) / y * 100\<bar> \<le> \<bar>(t - y) / y * 100\<bar> / 2 ^ 51)))
   \<and> (is_zero (yesterdayRevenue os) \<longrightarrow> revenueGrowthRate (getOrderStatistics os) = Fin 0)
   \<and> (js_less (Fin 0) (yesterdayOrders os) \<longrightarrow>
      orderGrowthRate (getOrderStatistics os) =
        parseFloat (toFixed (js_mul
          (js_div (js_sub (todayOrders os) (yesterdayOrders os)) (yesterdayOrders os))
          (Fin 100)))
      \<and> (\<forall>v. js_mul
               (js_div (js_sub (todayOrders os) (yesterdayOrders os)) (yesterdayOrders os))
               (Fin 100) = Fin v \<and> \<bar>v\<bar> < 10 ^ 21 \<longrightarrow>
            (\<exists>n. \<bar>real n / 100 - \<bar>v\<bar>\<bar> \<le> 1 / 200
               \<and> orderGrowthRate (getOrderStatistics os) =
                   (if v < 0 then js_neg (to_double (real n / 100))
                    else to_double (real n / 100))))
      \<and> (\<forall>t y. todayOrders os = Fin t \<and> yesterdayOrders os = Fin y
               \<and> 1 / 2 ^ 100 \<le> y \<and> y \<le> 2 ^ 100
               \<and> 1 / 2 ^ 100 \<le> \<bar>t - y\<bar> \<and> \<bar>t - y\<bar> \<le> 2 ^ 100 \<longrightarrow>
            (\<exists>v. js_mul
                   (js_div (js_sub (todayOrders os) (yesterdayOrders os)) (yesterdayOrders os))
                   (Fin 100) = Fin v
               \<and> \<bar>v - (t - y) / y * 100\<bar> \<le> \<bar>(t - y) / y * 100\<bar> / 2 ^ 51)))
   \<and> (is_zero (yesterdayOrders os) \<longrightarrow> orderGrowthRate (getOrderStatistics os) = Fin 0)"
proof -
  let ?rev = "js_mul
      (js_div (js_sub (todayRevenue os) (yesterdayRevenue os)) (yesterdayRevenue os)) (Fin 100)"
  let ?ord = "js_mul
      (js_div (js_sub (todayOrders os) (yesterdayOrders os)) (yesterdayOrders os)) (Fin 100)"
  have rev: "revenueGrowthRate (getOrderStatistics os) =
      (if js_less (Fin 0) (yesterdayRevenue os) then parseFloat (toFixed ?rev) else Fin 0)"
    by (simp add: getOrderStatistics_def)
  have ord: "orderGrowthRate (getOrderStatistics os) =
      (if js_less (Fin 0) (yesterdayOrders os) then parseFloat (toFixed ?ord) else Fin 0)"
    by (simp add: getOrderStatistics_def)
  have zero: "\<not> js_less (Fin 0) y" if "is_zero y" for y
    using that by (cases y) (simp_all add: js_less_def)
  have 1: "js_less (Fin 0) (yesterdayRevenue os) \<longrightarrow>
      revenueGrowthRate (getOrderStatistics os) = parseFloat (toFixed ?rev)
      \<and> (\<forall>v. ?rev = Fin v \<and> \<bar>v\<bar> < 10 ^ 21 \<longrightarrow>
            (\<exists>n. \<bar>real n / 100 - \<bar>v\<bar>\<bar> \<le> 1 / 200
               \<and> revenueGrowthRate (getOrderStatistics os) =
                   (if v < 0 then js_neg (to_double (real n / 100))
                    else to_double (real n / 100))))
      \<and> (\<forall>t y. todayRevenue os = Fin t \<and> yesterdayRevenue os = Fin y
               \<and> 1 / 2 ^ 100 \<le> y \<and> y \<le> 2 ^ 100
               \<and> 1 / 2 ^ 100 \<le> \<bar>t - y\<bar> \<and> \<bar>t - y\<bar> \<le> 2 ^ 100 \<longrightarrow>
            (\<exists>v. ?rev = Fin v
               \<and> \<bar>v - (t - y) / y * 100\<bar> \<le> \<bar>(t - y) / y * 100\<bar> / 2 ^ 51))"
  proof (intro impI conjI allI)
    assume g: "js_less (Fin 0) (yesterdayRevenue os)"
    then show r: "revenueGrowthRate (getOrderStatistics os) = parseFloat (toFixed ?rev)"
      by (simp only: rev if_True)
    fix v
    assume "?rev = Fin v \<and> \<bar>v\<bar> < 10 ^ 21"
    then have "?rev = Fin v" and "\<bar>v\<bar> < 10 ^ 21"
      by simp_all
    from parseFloat_toFixed_two_decimals [OF this]
    show "\<exists>n. \<bar>real n / 100 - \<bar>v\<bar>\<bar> \<le> 1 / 200
               \<and> revenueGrowthRate (getOrderStatistics os) =
                   (if v < 0 then js_neg (to_double (real n / 100))
                    else to_double (real n / 100))"
      unfolding r .
  next
    fix t y
    assume a: "todayRevenue os = Fin t \<and> yesterdayRevenue os = Fin y
               \<and> 1 / 2 ^ 100 \<le> y \<and> y \<le> 2 ^ 100
               \<and> 1 / 2 ^ 100 \<le> \<bar>t - y\<bar> \<and> \<bar>t - y\<bar> \<le> 2 ^ 100"
    then have "0 \<le> y"
      by (smt (verit) divide_nonneg_nonneg zero_le_power)
    with a have "1 / 2 ^ 100 \<le> \<bar>y\<bar>" "\<bar>y\<bar> \<le> 2 ^ 100"
      "1 / 2 ^ 100 \<le> \<bar>t - y\<bar>" "\<bar>t - y\<bar> \<le> 2 ^ 100"
      by simp_all
    from percent_change_accurate [OF this] a
    show "\<exists>v. ?rev = Fin v
               \<and> \<bar>v - (t - y) / y * 100\<bar> \<le> \<bar>(t - y) / y * 100\<bar> / 2 ^ 51"
      by simp
  qed
  have 2: "is_zero (yesterdayRevenue os) \<longrightarrow> revenueGrowthRate (getOrderStatistics os) = Fin 0"
    using zero [of "yesterdayRevenue os"] by (simp add: rev)
  have 3: "js_less (Fin 0) (yesterdayOrders os) \<longrightarrow>
      orderGrowthRate (getOrderStatistics os) = parseFloat (toFixed ?ord)
      \<and> (\<forall>v. ?ord = Fin v \<and> \<bar>v\<bar> < 10 ^ 21 \<longrightarrow>
            (\<exists>n. \<bar>real n / 100 - \<bar>v\<bar>\<bar> \<le> 1 / 200
               \<and> orderGrowthRate (getOrderStatistics os) =
                   (if v < 0 then js_neg (to_double (real n / 100))
                    else to_double (real n / 100))))
      \<and> (\<forall>t y. todayOrders os = Fin t \<and> yesterdayOrders os = Fin y
               \<and> 1 / 2 ^ 100 \<le> y \<and> y \<le> 2 ^ 100
               \<and> 1 / 2 ^ 100 \<le> \<bar>t - y\<bar> \<and> \<bar>t - y\<bar> \<le> 2 ^ 100 \<longrightarrow>
            (\<exists>v. ?ord = Fin v
               \<and> \<bar>v - (t - y) / y * 100\<bar> \<le> \<bar>(t - y) / y * 100\<bar> / 2 ^ 51))"
  proof (intro impI conjI allI)
    assume g: "js_less (Fin 0) (yesterdayOrders os)"
    then show r: "orderGrowthRate (getOrderStatistics os) = parseFloat (toFixed ?ord)"
      by (simp only: ord if_True)
    fix v
    assume "?ord = Fin v \<and> \<bar>v\<bar> < 10 ^ 21"
    then have "?ord = Fin v" and "\<bar>v\<bar> < 10 ^ 21"
      by simp_all
    from parseFloat_toFixed_two_decimals [OF this]
    show "\<exists>n. \<bar>real n / 100 - \<bar>v\<bar>\<bar> \<le> 1 / 200
               \<and> orderGrowthRate (getOrderStatistics os) =
                   (if v < 0 then js_neg (to_double (real n / 100))
                    else to_double (real n / 100))"
      unfolding r .
  next
    fix t y
    assume a: "todayOrders os = Fin t \<and> yesterdayOrders os = Fin y
               \<and> 1 / 2 ^ 100 \<le> y \<and> y \<le> 2 ^ 100
               \<and> 1 / 2 ^ 100 \<le> \<bar>t - y\<bar> \<and> \<bar>t - y\<bar> \<le> 2 ^ 100"
    then have "0 \<le> y"
      by (smt (verit) divide_nonneg_nonneg zero_le_power)
    with a have "1 / 2 ^ 100 \<le> \<bar>y\<bar>" "\<bar>y\<bar> \<le> 2 ^ 100"
      "1 / 2 ^ 100 \<le> \<bar>t - y\<bar>" "\<bar>t - y\<bar> \<le> 2 ^ 100"
      by simp_all
    from percent_change_accurate [OF this] a
    show "\<exists>v. ?ord = Fin v
               \<and> \<bar>v - (t - y) / y * 100\<bar> \<le> \<bar>(t - y) / y * 100\<bar> / 2 ^ 51"
      by simp
  qed
  have 4: "is_zero (yesterdayOrders os) \<longrightarrow> orderGrowthRate (getOrderStatistics os) = Fin 0"
    using zero [of "yesterdayOrders os"] by (simp add: ord)
  from 1 2 3 4 show ?thesis
    by blast
qed

text \<open>
  The theorem at the two sample records. A revenue of 183 after 160 gives
  \<^verbatim>\<open>14.374999999999998\<close> in double arithmetic, printed as \<^verbatim>\<open>"14.37"\<close>; no orders the day
  before give 0; 10 orders after 8 give 25.
\<close>

theorem growth_rate_rounded_or_zero_witness:
  "js_less (Fin 0) (yesterdayRevenue sampleOrders)
   \<and> revenueGrowthRate (getOrderStatistics sampleOrders) = to_double (1437 / 100)
   \<and> 1 / 2 ^ 100 \<le> (160 :: real) \<and> (160 :: real) \<le> 2 ^ 100
   \<and> 1 / 2 ^ 100 \<le> \<bar>183 - 160 :: real\<bar> \<and> \<bar>183 - 160 :: real\<bar> \<le> 2 ^ 100
   \<and> \<bar>8092405580431359 / 2 ^ 49 - (183 - 160) / 160 * 100 :: real\<bar>
         \<le> \<bar>(183 - 160) / 160 * 100\<bar> / 2 ^ 51
   \<and> is_zero (yesterdayOrders sampleOrders)
   \<and> orderGrowthRate (getOrderStatistics sampleOrders) = Fin 0
   \<and> is_zero (yesterdayRevenue firstDayOrders)
   \<and> revenueGrowthRate (getOrderStatistics firstDayOrders) = Fin 0
   \<and> js_less (Fin 0) (yesterdayOrders firstDayOrders)
   \<and> orderGrowthRate (getOrderStatistics firstDayOrders) = Fin 25"
  using growth_rate_rounded_or_zero [of sampleOrders]
    growth_rate_rounded_or_zero [of firstDayOrders] to_double_of_int [of 25]
  by (simp add: sampleOrders_def firstDayOrders_def js_less_def fin_percent_183_160
      fin_percent_10_8)

text \<open>
  The rate is not always finite: with a revenue of \<open>2 ^ 1023\<close> after 1 the product overflows
  and the rate is \<^verbatim>\<open>Infinity\<close>.
\<close>

lemma growth_rate_overflow:
  "revenueGrowthRate (getOrderStatistics
      \<lparr> todayRevenue = Fin (2 ^ 1023), yesterdayRevenue = Fin 1, todayOrders = Fin 0,
        yesterdayOrders = Fin 0, averageOrderValue = Fin 0 \<rparr>) = PosInf"
proof -
  have "round_double (2 ^ 1023 - 1) = 2 ^ 1023"
    using round_double_eval [of 1022 "2 ^ 1023 - 1"] by (simp add: nearest_even_def)
  then have 1: "to_double (2 ^ 1023 - 1) = Fin (2 ^ 1023)"
    by (intro to_double_eval) simp_all
  have "round_double (2 ^ 1023) = 2 ^ 1023"
    using round_double_eval [of 1023 "2 ^ 1023"] by (simp add: nearest_even_def)
  then have 2: "to_double (2 ^ 1023) = Fin (2 ^ 1023)"
    by (intro to_double_eval) simp_all
  have "round_double (2 ^ 1023 * 100) = 2 ^ 1023 * 100"
    using round_double_eval [of 1029 "2 ^ 1023 * 100"] by (simp add: nearest_even_def)
  then have 3: "to_double (2 ^ 1023 * 100) = PosInf"
    by (simp add: to_double_def)
  show ?thesis
    using 1 2 3 by (simp add: getOrderStatistics_def js_less_def js_sub_def js_div_def js_mul_def)
qed

section \<open>Return on investment of a promotion\<close>

lemma find_key_member: "find (\<lambda>p. key p = k) xs = Some x \<Longrightarrow> key x = k \<and> x \<in> set xs"
  by (induction xs) (auto split: if_splits)

lemma getPromotionAnalytics_Some:
  assumes "getPromotionAnalytics stats promotionId = Some res"
  shows "promo_id (pa_promotion res) = promotionId"
    and "pa_promotion res \<in> set (activePromotions stats) \<union> set (completedPromotions stats)"
    and "roi res =
          (if js_less (Fin 0) (totalRevenue (pa_promotion res))
           then parseFloat (toFixed (js_mul
                  (js_div (js_sub (totalRevenue (pa_promotion res))
                                  (discountGiven (pa_promotion res)))
                          (discountGiven (pa_promotion res)))
                  (Fin 100)))
           else Fin 0)"
  using assms
  by (auto simp: getPromotionAnalytics_def Let_def split: option.splits
      dest: find_key_member [where key = promo_id])

text \<open>A positive revenue over a discount of zero: the quotient is infinite.\<close>

lemma positive_by_zero:
  assumes "js_less (Fin 0) a"
  shows "parseFloat (toFixed (js_mul (js_div (js_sub a (Fin 0)) (Fin 0)) (Fin 100))) = PosInf"
    and "parseFloat (toFixed (js_mul (js_div (js_sub a NegZero) NegZero) (Fin 100))) = NegInf"
  using assms by (cases a; simp add: js_less_def js_sub_def js_div_def js_mul_def)+

text \<open>
  Claim C1. For every promotion that \<^verbatim>\<open>getPromotionAnalytics\<close> finds: whenever
  \<open>totalRevenue > 0\<close>, the reported \<open>roi\<close> is \<open>(totalRevenue - discountGiven) / discountGiven *
  100\<close>, each operation rounded to a double as JavaScript does, then rounded to two decimals
  by \<^verbatim>\<open>toFixed(2)\<close> and read back: if that product is a finite \<open>v\<close> below \<open>10^21\<close> in
  magnitude, the \<open>roi\<close> is the double nearest to \<open>n / 100\<close> for a number of hundredths \<open>n\<close>
  within half a hundredth of \<open>\<bar>v\<bar>\<close>, with the sign of \<open>v\<close>; and where revenue and discount are
  finite, with the discount and the difference between \<open>2 ^ - 100\<close> and \<open>2 ^ 100\<close> in
  magnitude, \<open>v\<close> is within a relative error of \<open>2 ^ - 51\<close> of the exact quotient. The guard
  tests \<open>totalRevenue\<close> and the denominator is \<open>discountGiven\<close>: a discount of zero gives
  \<^verbatim>\<open>Infinity\<close>, and \<^verbatim>\<open>-Infinity\<close> when the zero is negative. When \<open>totalRevenue\<close> is zero the
  \<open>roi\<close> is 0.
\<close>

theorem promotion_roi_guard_and_denominator:
  fixes p :: promotion
  assumes "getPromotionAnalytics stats promotionId = Some res"
    and "p = pa_promotion res"
  shows "promo_id p = promotionId
    \<and> p \<in> set (activePromotions stats) \<union> set (completedPromotions stats)
    \<and> (js_less (Fin 0) (totalRevenue p) \<longrightarrow>
           roi res = parseFloat (toFixed (js_mul
                       (js_div (js_sub (totalRevenue p) (discountGiven p)) (discountGiven p))
                       (Fin 100)))
           \<and> (\<forall>v. js_mul
                    (js_div (js_sub (totalRevenue p) (discountGiven p)) (discountGiven p))
                    (Fin 100) = Fin v \<and> \<bar>v\<bar> < 10 ^ 21 \<longrightarrow>
                 (\<exists>n. \<bar>real n / 100 - \<bar>v\<bar>\<bar> \<le> 1 / 200
                    \<and> roi res = (if v < 0 then js_neg (to_double (real n / 100))
                                 else to_double (real n / 100))))
           \<and> (\<forall>t y. totalRevenue p = Fin t \<and> discountGiven p = Fin y
                    \<and> 1 / 2 ^ 100 \<le> \<bar>y\<bar> \<and> \<bar>y\<bar> \<le> 2 ^ 100
                    \<and> 1 / 2 ^ 100 \<le> \<bar>t - y\<bar> \<and> \<bar>t - y\<bar> \<le> 2 ^ 100 \<longrightarrow>
                 (\<exists>v. js_mul
                        (js_div (js_sub (totalRevenue p) (discountGiven p)) (discountGiven p))
                        (Fin 100) = Fin v
                    \<and> \<bar>v - (t - y) / y * 100\<bar> \<le> \<bar>(t - y) / y * 100\<bar> / 2 ^ 51))
           \<and> (discountGiven p = Fin 0 \<longrightarrow> roi res = PosInf)
           \<and> (discountGiven p = NegZero \<longrightarrow> roi res = NegInf))
    \<and> (is_zero (totalRevenue p) \<longrightarrow> roi res = Fin 0)"
proof -
  let ?v = "js_mul
      (js_div (js_sub (totalRevenue p) (discountGiven p)) (discountGiven p)) (Fin 100)"
  note facts = getPromotionAnalytics_Some [OF assms(1), folded assms(2)]
  have 3: "js_less (Fin 0) (totalRevenue p) \<longrightarrow>
           roi res = parseFloat (toFixed ?v)
           \<and> (\<forall>v. ?v = Fin v \<and> \<bar>v\<bar> < 10 ^ 21 \<longrightarrow>
                 (\<exists>n. \<bar>real n / 100 - \<bar>v\<bar>\<bar> \<le> 1 / 200
                    \<and> roi res = (if v < 0 then js_neg (to_double (real n / 100))
                                 else to_double (real n / 100))))
           \<and> (\<forall>t y. totalRevenue p = Fin t \<and> discountGiven p = Fin y
                    \<and> 1 / 2 ^ 100 \<le> \<bar>y\<bar> \<and> \<bar>y\<bar> \<le> 2 ^ 100
                    \<and> 1 / 2 ^ 100 \<le> \<bar>t - y\<bar> \<and> \<bar>t - y\<bar> \<le> 2 ^ 100 \<longrightarrow>
                 (\<exists>v. ?v = Fin v
                    \<and> \<bar>v - (t - y) / y * 100\<bar> \<le> \<bar>(t - y) / y * 100\<bar> / 2 ^ 51))
           \<and> (discountGiven p = Fin 0 \<longrightarrow> roi res = PosInf)
           \<and> (discountGiven p = NegZero \<longrightarrow> roi res = NegInf)"
  proof (intro impI conjI allI)
    assume g: "js_less (Fin 0) (totalRevenue p)"
    with facts(3) show r: "roi res = parseFloat (toFixed ?v)"
      by (simp only: if_True)
    {
      fix v
      assume "?v = Fin v \<and> \<bar>v\<bar> < 10 ^ 21"
      then have "?v = Fin v" and "\<bar>v\<bar> < 10 ^ 21"
        by simp_all
      from parseFloat_toFixed_two_decimals [OF this]
      show "\<exists>n. \<bar>real n / 100 - \<bar>v\<bar>\<bar> \<le> 1 / 200
                    \<and> roi res = (if v < 0 then js_neg (to_double (real n / 100))
                                 else to_double (real n / 100))"
        unfolding r .
    }
    {
      fix t y
      assume a: "totalRevenue p = Fin t \<and> discountGiven p = Fin y
                    \<and> 1 / 2 ^ 100 \<le> \<bar>y\<bar> \<and> \<bar>y\<bar> \<le> 2 ^ 100
                    \<and> 1 / 2 ^ 100 \<le> \<bar>t - y\<bar> \<and> \<bar>t - y\<bar> \<le> 2 ^ 100"
      then have "1 / 2 ^ 100 \<le> \<bar>y\<bar>" "\<bar>y\<bar> \<le> 2 ^ 100"
        "1 / 2 ^ 100 \<le> \<bar>t - y\<bar>" "\<bar>t - y\<bar> \<le> 2 ^ 100"
        by simp_all
      from percent_change_accurate [OF this] a
      show "\<exists>v. ?v = Fin v
                    \<and> \<bar>v - (t - y) / y * 100\<bar> \<le> \<bar>(t - y) / y * 100\<bar> / 2 ^ 51"
        by simp
    }
    {
      assume "discountGiven p = Fin 0"
      then show "roi res = PosInf"
        using positive_by_zero(1) [OF g] by (simp only: r)
    }
    {
      assume "discountGiven p = NegZero"
      then show "roi res = NegInf"
        using positive_by_zero(2) [OF g] by (simp only: r)
    }
  qed
  have zero: "\<not> js_less (Fin 0) y" if "is_zero y" for y
    using that by (cases y) (simp_all add: js_less_def)
  have 4: "is_zero (totalRevenue p) \<longrightarrow> roi res = Fin 0"
    using facts(3) zero [of "totalRevenue p"] by simp
  from facts(1) facts(2) 3 4 show ?thesis
    by blast
qed

text \<open>
  The theorem at the four sample promotions: a revenue of 183 with a discount of 160 gives
  \<^verbatim>\<open>14.374999999999998\<close> in double arithmetic, printed as \<^verbatim>\<open>"14.37"\<close>; a revenue of 500
  with no discount gives \<^verbatim>\<open>Infinity\<close>, or \<^verbatim>\<open>-Infinity\<close> with a negative zero; no revenue
  gives 0.
\<close>

theorem promotion_roi_guard_and_denominator_witness:
  "(\<exists>res. getPromotionAnalytics samplePromotions ''promo_1'' = Some res
        \<and> roi res = to_double (1437 / 100)
        \<and> (\<exists>v. js_mul (js_div (js_sub (Fin 183) (Fin 160)) (Fin 160)) (Fin 100) = Fin v
              \<and> \<bar>v - (183 - 160) / 160 * 100\<bar> \<le> \<bar>(183 - 160) / 160 * 100\<bar> / 2 ^ 51))
   \<and> (\<exists>res. getPromotionAnalytics samplePromotions ''promo_2'' = Some res \<and> roi res = PosInf)
   \<and> (\<exists>res. getPromotionAnalytics samplePromotions ''promo_3'' = Some res \<and> roi res = Fin 0)
   \<and> (\<exists>res. getPromotionAnalytics samplePromotions ''promo_4'' = Some res \<and> roi res = NegInf)"
proof (intro conjI)
  obtain res where r: "getPromotionAnalytics samplePromotions ''promo_1'' = Some res"
    and p: "totalRevenue (pa_promotion res) = Fin 183"
      "discountGiven (pa_promotion res) = Fin 160"
    by (simp add: getPromotionAnalytics_def samplePromotions_def)
  from promotion_roi_guard_and_denominator [OF r refl] p
  have "roi res = to_double (1437 / 100)"
    and "\<exists>v. js_mul (js_div (js_sub (Fin 183) (Fin 160)) (Fin 160)) (Fin 100) = Fin v
            \<and> \<bar>v - (183 - 160) / 160 * 100\<bar> \<le> \<bar>(183 - 160) / 160 * 100\<bar> / 2 ^ 51"
    by (auto simp: js_less_def fin_percent_183_160)
  with r show "\<exists>res. getPromotionAnalytics samplePromotions ''promo_1'' = Some res
      \<and> roi res = to_double (1437 / 100)
      \<and> (\<exists>v. js_mul (js_div (js_sub (Fin 183) (Fin 160)) (Fin 160)) (Fin 100) = Fin v
            \<and> \<bar>v - (183 - 160) / 160 * 100\<bar> \<le> \<bar>(183 - 160) / 160 * 100\<bar> / 2 ^ 51)"
    by blast
next
  obtain res where r: "getPromotionAnalytics samplePromotions ''promo_2'' = Some res"
    and p: "totalRevenue (pa_promotion res) = Fin 500" "discountGiven (pa_promotion res) = Fin 0"
    by (simp add: getPromotionAnalytics_def samplePromotions_def)
  from promotion_roi_guard_and_denominator [OF r refl] p
  have "roi res = PosInf"
    by (auto simp: js_less_def)
  with r show "\<exists>res. getPromotionAnalytics samplePromotions ''promo_2'' = Some res
      \<and> roi res = PosInf"
    by blast
next
  obtain res where r: "getPromotionAnalytics samplePromotions ''promo_3'' = Some res"
    and p: "totalRevenue (pa_promotion res) = Fin 0"
    by (simp add: getPromotionAnalytics_def samplePromotions_def)
  from promotion_roi_guard_and_denominator [OF r refl] p
  have "roi res = Fin 0"
    by simp
  with r show "\<exists>res. getPromotionAnalytics samplePromotions ''promo_3'' = Some res
      \<and> roi res = Fin 0"
    by blast
next
  obtain res where r: "getPromotionAnalytics samplePromotions ''promo_4'' = Some res"
    and p: "totalRevenue (pa_promotion res) = Fin 500" "discountGiven (pa_promotion res) = NegZero"
    by (simp add: getPromotionAnalytics_def samplePromotions_def)
  from promotion_roi_guard_and_denominator [OF r refl] p
  have "roi res = NegInf"
    by (auto simp: js_less_def)
  with r show "\<exists>res. getPromotionAnalytics samplePromotions ''promo_4'' = Some res
      \<and> roi res = NegInf"
    by blast
qed

section \<open>Review trend\<close>

lemma review_trend_append:
  "calculateReviewTrend (earlier @ [previous, latest]) = calculateReviewTrend [previous, latest]"
  by (simp add: calculateReviewTrend_def Let_def nth_append)

lemma length_two: "length ys = 2 \<Longrightarrow> \<exists>a b. ys = [a, b]"
  by (auto simp: numeral_2_eq_2 length_Suc_conv)

lemma last_two_split:
  assumes "2 \<le> length xs"
  shows "\<exists>a b. xs = take (length xs - 2) xs @ [a, b] \<and> drop (length xs - 2) xs = [a, b]"
proof -
  have "length (drop (length xs - 2) xs) = 2" using assms by simp
  then obtain a b where d: "drop (length xs - 2) xs = [a, b]"
    using length_two by blast
  have "xs = take (length xs - 2) xs @ drop (length xs - 2) xs" by simp
  with d show ?thesis by metis
qed

text \<open>
  Claim C10. For a monthly series with fewer than two entries \<^verbatim>\<open>calculateReviewTrend\<close>
  returns \<^verbatim>\<open>{direction: 'stable', change: 0}\<close>; the guard comes before any entry is read.
  For a series with two or more entries the result is that of its last two entries alone.
\<close>

theorem review_trend_short_or_last_two:
  "(length monthlyTrend < 2 \<longrightarrow> calculateReviewTrend monthlyTrend = TrendShort stable 0)
   \<and> (2 \<le> length monthlyTrend \<longrightarrow>
        calculateReviewTrend monthlyTrend =
        calculateReviewTrend (drop (length monthlyTrend - 2) monthlyTrend))"
proof (intro conjI impI)
  assume "length monthlyTrend < 2"
  then show "calculateReviewTrend monthlyTrend = TrendShort stable 0"
    by (simp add: calculateReviewTrend_def)
next
  assume "2 \<le> length monthlyTrend"
  then obtain a b where
    "monthlyTrend = take (length monthlyTrend - 2) monthlyTrend @ [a, b]"
    and d: "drop (length monthlyTrend - 2) monthlyTrend = [a, b]"
    using last_two_split by blast
  then have "calculateReviewTrend monthlyTrend = calculateReviewTrend [a, b]"
    using review_trend_append by metis
  with d show "calculateReviewTrend monthlyTrend =
        calculateReviewTrend (drop (length monthlyTrend - 2) monthlyTrend)"
    by simp
qed

text \<open>
  The last two months of the sample series: the ratings read from \<^verbatim>\<open>4.6\<close> and \<^verbatim>\<open>4.7\<close> differ
  by \<^verbatim>\<open>0.10000000000000053\<close> in double arithmetic, which is above the double read from
  \<^verbatim>\<open>0.1\<close>.
\<close>

lemma tenth_double: "to_double (1 / 10) = Fin (7205759403792794 / 2 ^ 56)"
proof -
  have "round_double (1 / 10) = 7205759403792794 / 2 ^ 56"
    using round_double_eval [of "- 4" "1 / 10"] by (simp add: nearest_even_def)
  then show ?thesis
    by (intro to_double_eval) simp_all
qed

lemma rating_46_double: "to_double (46 / 10) = Fin (5179139571476070 / 2 ^ 50)"
proof -
  have "round_double (46 / 10) = 5179139571476070 / 2 ^ 50"
    using round_double_eval [of 2 "46 / 10"] by (simp add: nearest_even_def)
  then show ?thesis
    by (intro to_double_eval) simp_all
qed

lemma rating_47_double: "to_double (47 / 10) = Fin (5291729562160333 / 2 ^ 50)"
proof -
  have "round_double (47 / 10) = 5291729562160333 / 2 ^ 50"
    using round_double_eval [of 2 "47 / 10"] by (simp add: nearest_even_def)
  then show ?thesis
    by (intro to_double_eval) simp_all
qed

lemma rating_change_double:
  "js_sub (to_double (47 / 10)) (to_double (46 / 10)) = Fin (7205759403792832 / 2 ^ 56)"
proof -
  have "round_double (5291729562160333 / 2 ^ 50 - 5179139571476070 / 2 ^ 50)
      = 7205759403792832 / 2 ^ 56"
    using round_double_eval [of "- 4" "5291729562160333 / 2 ^ 50 - 5179139571476070 / 2 ^ 50"]
    by (simp add: nearest_even_def)
  then have "to_double (5291729562160333 / 2 ^ 50 - 5179139571476070 / 2 ^ 50)
      = Fin (7205759403792832 / 2 ^ 56)"
    by (intro to_double_eval) simp_all
  then show ?thesis
    unfolding rating_46_double rating_47_double js_sub_def by simp
qed

lemma review_growth_double:
  "js_sub (Fin 150) (Fin 100) = Fin 50"
  "js_mul (js_div (Fin 50) (Fin 100)) (Fin 100) = Fin 50"
proof -
  show "js_sub (Fin 150) (Fin 100) = Fin 50"
    using to_double_of_int [of 50] by (simp add: js_sub_def)
  have "round_double (50 / 100) = 1 / 2"
    using round_double_eval [of "- 1" "50 / 100"] by (simp add: nearest_even_def)
  then have "to_double (50 / 100) = Fin (1 / 2)"
    by (intro to_double_eval) simp_all
  then show "js_mul (js_div (Fin 50) (Fin 100)) (Fin 100) = Fin 50"
    using to_double_of_int [of 50] by (simp add: js_div_def js_mul_def)
qed

text \<open>
  The theorem at the empty series, at a single month, and at the sample series of three
  months, of which the first does not count.
\<close>

theorem review_trend_short_or_last_two_witness:
  "calculateReviewTrend [] = TrendShort stable 0
   \<and> calculateReviewTrend
        [\<lparr>month = ''2024-01'', m_averageRating = to_double (46 / 10), m_totalReviews = Fin 100\<rparr>]
      = TrendShort stable 0
   \<and> 2 \<le> length sampleTrend
   \<and> calculateReviewTrend sampleTrend =
       TrendFull improving (JsDecimal False 10) (Fin 50) (JsDecimal False 5000)"
  using review_trend_short_or_last_two [of "[]"]
    review_trend_short_or_last_two [of
      "[\<lparr>month = ''2024-01'', m_averageRating = to_double (46 / 10),
         m_totalReviews = Fin 100\<rparr>]"]
    review_trend_short_or_last_two [of sampleTrend]
  by (simp add: sampleTrend_def calculateReviewTrend_def Let_def
      rating_change_double [simplified] review_growth_double tenth_double js_less_def)

section \<open>Top-rated dish\<close>

lemma js_less_trans: "js_less a b \<Longrightarrow> js_less b c \<Longrightarrow> js_less a c"
  by (auto simp: js_less_def)

lemma js_less_asym: "js_less a b \<Longrightarrow> \<not> js_less b a"
  by (auto simp: js_less_def)

text \<open>
  The fold of \<^verbatim>\<open>reduce\<close> for any score: the result is the start or an entry that scores higher
  than the start, and no entry scores higher than the result.
\<close>

lemma top_fold:
  assumes "foldl (\<lambda>top current. if js_less (score top) (score current) then current else top)
             a xs = r"
  shows "r \<in> set (a # xs) \<and> (r = a \<or> js_less (score a) (score r))
       \<and> (\<forall>x\<in>set (a # xs). \<not> js_less (score r) (score x))"
  using assms
proof (induction xs arbitrary: a)
  case Nil
  then show ?case
    by (auto simp: js_less_def)
next
  case (Cons x xs)
  show ?case
  proof (cases "js_less (score a) (score x)")
    case True
    with Cons.prems have "foldl (\<lambda>top current.
        if js_less (score top) (score current) then current else top) x xs = r"
      by simp
    from Cons.IH [OF this] have r: "r \<in> set (x # xs)"
      and s: "r = x \<or> js_less (score x) (score r)"
      and m: "\<forall>y\<in>set (x # xs). \<not> js_less (score r) (score y)"
      by blast+
    from s True have a: "js_less (score a) (score r)"
      using js_less_trans by blast
    then have "\<not> js_less (score r) (score a)"
      by (rule js_less_asym)
    with r a m show ?thesis
      by simp
  next
    case False
    with Cons.prems have "foldl (\<lambda>top current.
        if js_less (score top) (score current) then current else top) a xs = r"
      by simp
    from Cons.IH [OF this] have r: "r \<in> set (a # xs)"
      and s: "r = a \<or> js_less (score a) (score r)"
      and m: "\<forall>y\<in>set (a # xs). \<not> js_less (score r) (score y)"
      by blast+
    have "\<not> js_less (score r) (score x)"
    proof
      assume "js_less (score r) (score x)"
      with s have "js_less (score a) (score x)"
        using js_less_trans by blast
      with False show False
        by simp
    qed
    with r s m show ?thesis
      by auto
  qed
qed

text \<open>Bounds on the logarithms of the example.\<close>

lemma ln_2_ge_half: "1 / 2 \<le> ln (2::real)"
proof -
  have "exp (1 / 2 :: real) \<le> 2"
  proof (rule ccontr)
    assume "\<not> exp (1 / 2 :: real) \<le> 2"
    then have "2 < exp (1 / 2 :: real)"
      by simp
    then have "2 * 2 < exp (1 / 2 :: real) * exp (1 / 2)"
      by (intro mult_strict_mono) simp_all
    also have "\<dots> = exp 1"
      by (simp flip: exp_add)
    also have "\<dots> \<le> 3"
      by (rule exp_le)
    finally show False
      by simp
  qed
  then show ?thesis
    using ln_ge_iff [of 2 "1 / 2"] by simp
qed

lemma ln_201_gt_2: "2 < ln (201::real)"
proof -
  have "exp (2::real) = exp 1 * exp 1" by (simp flip: exp_add)
  also have "\<dots> \<le> 3 * 3" by (intro mult_mono exp_le) simp_all
  also have "\<dots> < 201" by simp
  finally have "exp (2::real) < 201" .
  then have "ln (exp (2::real)) < ln 201" by (subst ln_less_cancel_iff) simp_all
  then show ?thesis by simp
qed

text \<open>
  The scores of the two example entries, for an engine whose logarithm is within a hundredth
  of the natural logarithm at 2 and at 201: the score of A is at most 8, that of B above 8.
\<close>

lemma rating_49_double: "to_double (49 / 10) = Fin (5516909543528858 / 2 ^ 50)"
proof -
  have "round_double (49 / 10) = 5516909543528858 / 2 ^ 50"
    using round_double_eval [of 2 "49 / 10"] by (simp add: nearest_even_def)
  then show ?thesis
    by (intro to_double_eval) simp_all
qed

lemma rating_45_double: "to_double (45 / 10) = Fin (9 / 2)"
proof -
  have "round_double (45 / 10) = 9 / 2"
    using round_double_eval [of 2 "45 / 10"] by (simp add: nearest_even_def)
  then show ?thesis
    by (intro to_double_eval) simp_all
qed

lemma score_A:
  assumes "\<bar>approxLn 2 - ln 2\<bar> \<le> 1 / 100"
  shows "\<exists>r. js_mul (averageRating dishA)
                (mathLog approxLn (js_add (totalReviews dishA) (Fin 1))) = Fin r \<and> r \<le> 8"
proof -
  define x where "x = 5516909543528858 / 2 ^ 50 * approxLn 2"
  have l: "49 / 100 \<le> approxLn 2" "approxLn 2 \<le> 101 / 100"
    using assms ln_2_ge_half ln_2_less_1 by linarith+
  then have x: "1 \<le> x" "x \<le> 6"
    unfolding x_def by simp_all
  then obtain r where r: "to_double x = Fin r" and e: "\<bar>r - x\<bar> \<le> x / 2 ^ 53"
    using to_double_normal [of x] by auto
  have "x / 2 ^ 53 \<le> x / 4"
    using x by (intro divide_left_mono) simp_all
  with e x have "r \<le> 8"
    by linarith
  moreover have "js_add (Fin 1) (Fin 1) = Fin 2"
    using to_double_of_int [of 2] by simp
  then have "js_mul (averageRating dishA)
      (mathLog approxLn (js_add (totalReviews dishA) (Fin 1))) = to_double x"
    using l unfolding dishA_def x_def rating_49_double by (simp add: js_mul_def)
  ultimately show ?thesis
    using r by simp
qed

lemma score_B:
  assumes "\<bar>approxLn 201 - ln 201\<bar> \<le> 1 / 100"
  shows "\<exists>r. js_mul (averageRating dishB)
                (mathLog approxLn (js_add (totalReviews dishB) (Fin 1))) = Fin r \<and> 8 < r"
proof -
  define x where "x = 9 / 2 * approxLn 201"
  have "ln (201::real) \<le> 201 - 1"
    by (rule ln_le_minus_one) simp
  then have l: "199 / 100 \<le> approxLn 201" "approxLn 201 \<le> 201"
    using assms ln_201_gt_2 by linarith+
  then have x: "895 / 100 \<le> x" "x \<le> 1024"
    unfolding x_def by simp_all
  then obtain r where r: "to_double x = Fin r" and e: "\<bar>r - x\<bar> \<le> x / 2 ^ 53"
    using to_double_normal [of x] by auto
  have "x / 2 ^ 53 \<le> x / 100"
    using x by (intro divide_left_mono) simp_all
  with e x have "8 < r"
    by linarith
  moreover have "js_add (Fin 200) (Fin 1) = Fin 201"
    using to_double_of_int [of 201] by simp
  then have "js_mul (averageRating dishB)
      (mathLog approxLn (js_add (totalReviews dishB) (Fin 1))) = to_double x"
    using l unfolding dishB_def x_def rating_45_double by (simp add: js_mul_def)
  ultimately show ?thesis
    using r by simp
qed

lemma score_A_less_B:
  assumes "\<bar>approxLn 2 - ln 2\<bar> \<le> 1 / 100" and "\<bar>approxLn 201 - ln 201\<bar> \<le> 1 / 100"
  shows "js_less
           (js_mul (averageRating dishA) (mathLog approxLn (js_add (totalReviews dishA) (Fin 1))))
           (js_mul (averageRating dishB) (mathLog approxLn (js_add (totalReviews dishB) (Fin 1))))"
  using score_A [of approxLn] score_B [of approxLn] assms by (auto simp: js_less_def)

text \<open>
  Claim C9. For every non-empty list of dish review entries \<^verbatim>\<open>findTopRatedDish\<close> returns an
  entry of the list such that no entry has a greater score
  \<open>averageRating * Math.log (totalReviews + 1)\<close>, the score being computed and compared as
  JavaScript does. Over the two entries A (rating 4.9, one review) and B (rating 4.5, 200
  reviews), in either order, it returns B, for every engine whose \<^verbatim>\<open>Math.log\<close> is within a
  hundredth of the natural logarithm at 2 and at 201.
\<close>

theorem top_rated_dish_maximizes_score:
  "(dishReviews \<noteq> [] \<longrightarrow>
      (\<exists>top. findTopRatedDish approxLn dishReviews = Some top \<and> top \<in> set dishReviews
         \<and> (\<forall>d\<in>set dishReviews.
               \<not> js_less
                   (js_mul (averageRating top)
                      (mathLog approxLn (js_add (totalReviews top) (Fin 1))))
                   (js_mul (averageRating d)
                      (mathLog approxLn (js_add (totalReviews d) (Fin 1)))))))
   \<and> (\<bar>approxLn 2 - ln 2\<bar> \<le> 1 / 100 \<and> \<bar>approxLn 201 - ln 201\<bar> \<le> 1 / 100 \<longrightarrow>
        findTopRatedDish approxLn [dishA, dishB] = Some dishB
        \<and> findTopRatedDish approxLn [dishB, dishA] = Some dishB)"
proof (intro conjI impI)
  let ?score = "\<lambda>d. js_mul (averageRating d)
      (mathLog approxLn (js_add (totalReviews d) (Fin 1)))"
  assume "dishReviews \<noteq> []"
  then obtain first rest where l: "dishReviews = first # rest"
    by (cases dishReviews) auto
  define top where "top = foldl (\<lambda>top current.
      if js_less (?score top) (?score current) then current else top) first rest"
  from top_fold [of ?score first rest top] l
  have "top \<in> set dishReviews"
    and "\<forall>d\<in>set dishReviews. \<not> js_less (?score top) (?score d)"
    unfolding top_def by blast+
  moreover have "findTopRatedDish approxLn dishReviews = Some top"
    by (simp add: findTopRatedDish_def l top_def)
  ultimately show "\<exists>top. findTopRatedDish approxLn dishReviews = Some top
      \<and> top \<in> set dishReviews
      \<and> (\<forall>d\<in>set dishReviews. \<not> js_less (?score top) (?score d))"
    by blast
next
  assume "\<bar>approxLn 2 - ln 2\<bar> \<le> 1 / 100 \<and> \<bar>approxLn 201 - ln 201\<bar> \<le> 1 / 100"
  then have s: "js_less
      (js_mul (averageRating dishA) (mathLog approxLn (js_add (totalReviews dishA) (Fin 1))))
      (js_mul (averageRating dishB) (mathLog approxLn (js_add (totalReviews dishB) (Fin 1))))"
    using score_A_less_B by blast
  then show "findTopRatedDish approxLn [dishA, dishB] = Some dishB"
    by (simp add: findTopRatedDish_def)
  from s show "findTopRatedDish approxLn [dishB, dishA] = Some dishB"
    using js_less_asym by (simp add: findTopRatedDish_def)
qed

text \<open>
  The theorem at the list of A and B, with the natural logarithm itself for the engine's
  function: B is returned, and neither entry scores higher than B.
\<close>

theorem top_rated_dish_maximizes_score_witness:
  "[dishA, dishB] \<noteq> []
   \<and> \<bar>ln 2 - ln (2::real)\<bar> \<le> 1 / 100 \<and> \<bar>ln 201 - ln (201::real)\<bar> \<le> 1 / 100
   \<and> findTopRatedDish ln [dishA, dishB] = Some dishB
   \<and> \<not> js_less
         (js_mul (averageRating dishB) (mathLog ln (js_add (totalReviews dishB) (Fin 1))))
         (js_mul (averageRating dishA) (mathLog ln (js_add (totalReviews dishA) (Fin 1))))
   \<and> \<not> js_less
         (js_mul (averageRating dishB) (mathLog ln (js_add (totalReviews dishB) (Fin 1))))
         (js_mul (averageRating dishB) (mathLog ln (js_add (totalReviews dishB) (Fin 1))))"
  using top_rated_dish_maximizes_score [of "[dishA, dishB]" ln] by auto

text \<open>
  Scores are compared as computed: the ratings read from \<^verbatim>\<open>1.9\<close> and \<^verbatim>\<open>1.9000000000000001\<close>
  are neighbouring doubles, and with one review each and \<^verbatim>\<open>Math.log(2)\<close> the double nearest to
  the logarithm, both products round to the same double, so the first entry is kept.
\<close>

lemma top_rated_tie_keeps_first:
  assumes "approxLn 2 = 6243314768165359 / 2 ^ 53"
  shows "findTopRatedDish approxLn [tieFirst, tieSecond] = Some tieFirst"
proof -
  have "round_double (19 / 10) = 8556839292003942 / 2 ^ 52"
    using round_double_eval [of 0 "19 / 10"] by (simp add: nearest_even_def)
  then have a: "to_double (19 / 10) = Fin (8556839292003942 / 2 ^ 52)"
    by (intro to_double_eval) simp_all
  have "round_double (19000000000000001 / 10000000000000000) = 8556839292003943 / 2 ^ 52"
    using round_double_eval [of 0 "19000000000000001 / 10000000000000000"]
    by (simp add: nearest_even_def)
  then have b: "to_double (19000000000000001 / 10000000000000000)
      = Fin (8556839292003943 / 2 ^ 52)"
    by (intro to_double_eval) simp_all
  have "round_double (8556839292003942 / 2 ^ 52 * (6243314768165359 / 2 ^ 53))
      = 5931149029757091 / 2 ^ 52"
    using round_double_eval [of 0 "8556839292003942 / 2 ^ 52 * (6243314768165359 / 2 ^ 53)"]
    by (simp add: nearest_even_def)
  then have c: "to_double (8556839292003942 / 2 ^ 52 * (6243314768165359 / 2 ^ 53))
      = Fin (5931149029757091 / 2 ^ 52)"
    by (intro to_double_eval) simp_all
  have "round_double (8556839292003943 / 2 ^ 52 * (6243314768165359 / 2 ^ 53))
      = 5931149029757091 / 2 ^ 52"
    using round_double_eval [of 0 "8556839292003943 / 2 ^ 52 * (6243314768165359 / 2 ^ 53)"]
    by (simp add: nearest_even_def)
  then have d: "to_double (8556839292003943 / 2 ^ 52 * (6243314768165359 / 2 ^ 53))
      = Fin (5931149029757091 / 2 ^ 52)"
    by (intro to_double_eval) simp_all
  have two: "js_add (Fin 1) (Fin 1) = Fin 2"
    using to_double_of_int [of 2] by simp
  have "js_mul (averageRating tieFirst)
          (mathLog approxLn (js_add (totalReviews tieFirst) (Fin 1)))
        = Fin (5931149029757091 / 2 ^ 52)"
    unfolding tieFirst_def a using two c by (simp add: js_mul_def assms)
  moreover have "js_mul (averageRating tieSecond)
          (mathLog approxLn (js_add (totalReviews tieSecond) (Fin 1)))
        = Fin (5931149029757091 / 2 ^ 52)"
    unfolding tieSecond_def b using two d by (simp add: js_mul_def assms)
  ultimately show ?thesis
    by (simp add: findTopRatedDish_def js_less_def)
qed

section \<open>Looking up and replacing the first match\<close>

lemma findIndex_None_iff: "findIndex P xs = None \<longleftrightarrow> (\<forall>x\<in>set xs. \<not> P x)"
  by (induction xs) auto

lemma findIndex_Some:
  "findIndex P xs = Some i \<Longrightarrow> i < length xs \<and> P (xs ! i) \<and> find P xs = Some (xs ! i)"
  by (induction xs arbitrary: i) (auto split: if_splits)

lemma find_Some_findIndex:
  "find P xs = Some x \<Longrightarrow> \<exists>i. findIndex P xs = Some i \<and> xs ! i = x"
  by (induction xs) (auto split: if_splits)

lemma find_None_findIndex: "find P xs = None \<longleftrightarrow> findIndex P xs = None"
  by (induction xs) auto

lemma find_append_first:
  "find P (xs @ ys) = (case find P xs of None \<Rightarrow> find P ys | Some x \<Rightarrow> Some x)"
  by (induction xs) auto

lemma find_update_first:
  "findIndex (\<lambda>x. key x = k) xs = Some i \<Longrightarrow> key y = k \<Longrightarrow>
     find (\<lambda>x. key x = k') (xs[i := y]) =
       (if k' = k then Some y else find (\<lambda>x. key x = k') xs)"
proof (induction xs arbitrary: i)
  case Nil
  then show ?case by simp
next
  case (Cons x xs)
  then show ?case by (cases i) (auto split: if_splits)
qed

section \<open>Deleting a category\<close>

lemma deleteCategory_update:
  "findIndexById cat_id cs c = Some i \<Longrightarrow>
     (applyCategoryUpdate
        \<lparr>upd_name = None, upd_description = None, upd_sortOrder = None,
         upd_isActive = Some False\<rparr>
        (cs ! i))\<lparr>cat_id := c\<rparr> = (cs ! i)\<lparr>isActive := False\<rparr>"
  by (auto simp: findIndexById_def applyCategoryUpdate_def dest!: findIndex_Some)

text \<open>
  Claim C4. With the dishes readable, \<^verbatim>\<open>deleteCategory\<close> fails with the conflict error
  exactly when some dish carries the category's identifier, whatever the dish's status,
  and then changes nothing. When no dish does and the categories can be read and written,
  the first category with the identifier has \<open>isActive\<close> set to false and every other
  record of every collection stays as it is; for an unknown identifier the call returns
  false and changes nothing.
\<close>

theorem deleteCategory_conflict_iff_dish_exists:
  assumes "dishesFile \<notin> unreadable st"
  shows "((\<exists>e. fst (deleteCategory c st) = Inl e \<and> kindOf e = ConflictError)
            \<longleftrightarrow> (\<exists>d\<in>set (dishes st). dish_categoryId d = c))
     \<and> ((\<exists>d\<in>set (dishes st). dish_categoryId d = c) \<longrightarrow> snd (deleteCategory c st) = st)
     \<and> ((\<forall>d\<in>set (dishes st). dish_categoryId d \<noteq> c)
          \<and> categoriesFile \<notin> unreadable st \<and> categoriesFile \<notin> unwritable st \<longrightarrow>
         (case findIndexById cat_id (categories st) c of
            None \<Rightarrow> deleteCategory c st = (Inr False, st)
          | Some i \<Rightarrow>
              deleteCategory c st =
                (Inr True,
                 st\<lparr>categories :=
                      (categories st)[i := (categories st ! i)\<lparr>isActive := False\<rparr>]\<rparr>)))"
proof (intro conjI)
  have f: "filter (\<lambda>dish. dish_categoryId dish = c) (dishes st) = [] \<longleftrightarrow>
      \<not> (\<exists>d\<in>set (dishes st). dish_categoryId d = c)"
    by (auto simp: filter_empty_conv)
  show "(\<exists>e. fst (deleteCategory c st) = Inl e \<and> kindOf e = ConflictError)
            \<longleftrightarrow> (\<exists>d\<in>set (dishes st). dish_categoryId d = c)"
    using assms f
    by (auto simp: deleteCategory_def readDishes_def updateCategory_def readCategories_def
        writeCategories_def Let_def split: sum.splits option.splits prod.splits if_splits)
  show "(\<exists>d\<in>set (dishes st). dish_categoryId d = c) \<longrightarrow> snd (deleteCategory c st) = st"
    using assms f by (auto simp: deleteCategory_def readDishes_def Let_def)
  show "(\<forall>d\<in>set (dishes st). dish_categoryId d \<noteq> c)
          \<and> categoriesFile \<notin> unreadable st \<and> categoriesFile \<notin> unwritable st \<longrightarrow>
         (case findIndexById cat_id (categories st) c of
            None \<Rightarrow> deleteCategory c st = (Inr False, st)
          | Some i \<Rightarrow>
              deleteCategory c st =
                (Inr True,
                 st\<lparr>categories :=
                      (categories st)[i := (categories st ! i)\<lparr>isActive := False\<rparr>]\<rparr>))"
    using assms f
    by (auto simp: deleteCategory_def readDishes_def updateCategory_def readCategories_def
        writeCategories_def Let_def deleteCategory_update split: option.splits)
qed

text \<open>
  The theorem at the example state: \<^verbatim>\<open>cat_1\<close>, whose two dishes are both off, cannot be
  deleted; \<^verbatim>\<open>cat_2\<close> is switched to inactive and stays in the list; for the unknown
  \<^verbatim>\<open>cat_9\<close> the call returns false.
\<close>

theorem deleteCategory_conflict_iff_dish_exists_witness:
  "dishesFile \<notin> unreadable sampleStore
   \<and> (\<exists>d\<in>set (dishes sampleStore). dish_categoryId d = ''cat_1'' \<and> dish_status d = ''off'')
   \<and> (\<exists>e. fst (deleteCategory ''cat_1'' sampleStore) = Inl e \<and> kindOf e = ConflictError)
   \<and> snd (deleteCategory ''cat_1'' sampleStore) = sampleStore
   \<and> deleteCategory ''cat_2'' sampleStore =
       (Inr True,
        sampleStore\<lparr>categories :=
          [\<lparr>cat_id = ''cat_1'', cat_name = ''Mains'', description = [], sortOrder = 1,
            isActive = True\<rparr>,
           \<lparr>cat_id = ''cat_2'', cat_name = ''Desserts'', description = [], sortOrder = 2,
            isActive = False\<rparr>]\<rparr>)
   \<and> deleteCategory ''cat_9'' sampleStore = (Inr False, sampleStore)"
proof -
  have r: "dishesFile \<notin> unreadable sampleStore" by (simp add: sampleStore_def)
  have n: "findIndexById cat_id (categories sampleStore) ''cat_9'' = None"
    by (simp add: sampleStore_def findIndexById_def)
  from deleteCategory_conflict_iff_dish_exists [OF r, of "''cat_9''"] n
  have 4: "deleteCategory ''cat_9'' sampleStore = (Inr False, sampleStore)"
    by (simp add: sampleStore_def)
  have d: "\<exists>d\<in>set (dishes sampleStore). dish_categoryId d = ''cat_1'' \<and> dish_status d = ''off''"
    by (simp add: sampleStore_def)
  have i: "findIndexById cat_id (categories sampleStore) ''cat_2'' = Some 1"
    by (simp add: sampleStore_def findIndexById_def)
  from deleteCategory_conflict_iff_dish_exists [OF r, of "''cat_1''"] d
  have 1: "\<exists>e. fst (deleteCategory ''cat_1'' sampleStore) = Inl e \<and> kindOf e = ConflictError"
    and 2: "snd (deleteCategory ''cat_1'' sampleStore) = sampleStore"
    by blast+
  from deleteCategory_conflict_iff_dish_exists [OF r, of "''cat_2''"] i
  have 3: "deleteCategory ''cat_2'' sampleStore =
       (Inr True,
        sampleStore\<lparr>categories :=
          [\<lparr>cat_id = ''cat_1'', cat_name = ''Mains'', description = [], sortOrder = 1,
            isActive = True\<rparr>,
           \<lparr>cat_id = ''cat_2'', cat_name = ''Desserts'', description = [], sortOrder = 2,
            isActive = False\<rparr>]\<rparr>)"
    by (simp add: sampleStore_def)
  from r d 1 2 3 4 show ?thesis by blast
qed

section \<open>Stock updates\<close>

lemma updateDishStockField_frame:
  "inventory (updateDishStockField d n st) = inventory st"
  "categories (updateDishStockField d n st) = categories st"
  "unreadable (updateDishStockField d n st) = unreadable st"
  "unwritable (updateDishStockField d n st) = unwritable st"
  by (auto simp: updateDishStockField_def updateDishStockField_try_def readDishes_def
      writeDishes_def split: option.splits)

lemma updateDishStockField_dishes:
  "dishes (updateDishStockField d n st) =
     (if dishesFile \<in> unreadable st \<or> dishesFile \<in> unwritable st then dishes st
      else case findIndexById dish_id (dishes st) d of
             None \<Rightarrow> dishes st
           | Some i \<Rightarrow> (dishes st)[i := (dishes st ! i)\<lparr>dish_stock := n\<rparr>])"
  by (auto simp: updateDishStockField_def updateDishStockField_try_def readDishes_def
      writeDishes_def split: option.splits)

lemma updateDishStockField_lookup:
  assumes "dishesFile \<notin> unreadable st" "dishesFile \<notin> unwritable st"
  shows "findById dish_id (dishes (updateDishStockField d n st)) d =
           map_option (\<lambda>x. x\<lparr>dish_stock := n\<rparr>) (findById dish_id (dishes st) d)"
proof (cases "findIndexById dish_id (dishes st) d")
  case None
  then have "findIndex (\<lambda>x. dish_id x = d) (dishes st) = None"
    by (simp add: findIndexById_def)
  moreover from this have "find (\<lambda>x. dish_id x = d) (dishes st) = None"
    by (simp add: find_None_findIndex)
  ultimately show ?thesis
    using assms
    by (simp add: updateDishStockField_dishes findById_def findIndexById_def)
next
  case (Some i)
  then have i: "findIndex (\<lambda>x. dish_id x = d) (dishes st) = Some i"
    by (simp add: findIndexById_def)
  from findIndex_Some [OF i] have "dish_id (dishes st ! i) = d"
    and "find (\<lambda>x. dish_id x = d) (dishes st) = Some (dishes st ! i)" by auto
  then show ?thesis
    using assms Some find_update_first [OF i, of "(dishes st ! i)\<lparr>dish_stock := n\<rparr>" d]
    by (simp add: updateDishStockField_dishes findById_def)
qed

lemma updateDishStock_result:
  assumes "updateDishStock d newStock additional st = (Inr item, st')"
  shows "stock item = newStock \<and> dishId item = d
     \<and> find (\<lambda>x. dishId x = d) (inventory st') = Some item
     \<and> (\<exists>st1. st' = updateDishStockField d newStock st1 \<and> dishes st1 = dishes st
           \<and> unreadable st1 = unreadable st \<and> unwritable st1 = unwritable st)"
proof (cases "findIndex (\<lambda>x. dishId x = d) (inventory st)")
  case None
  then have "find (\<lambda>x. dishId x = d) (inventory st) = None"
    by (simp add: find_None_findIndex)
  with None assms show ?thesis
    by (auto simp: updateDishStock_def readInventory_def writeInventory_def Let_def
        updateDishStockField_frame find_append_first split: if_splits)
next
  case (Some i)
  from findIndex_Some [OF Some] have k: "dishId (inventory st ! i) = d" by simp
  from Some assms k show ?thesis
    by (auto simp: updateDishStock_def readInventory_def writeInventory_def Let_def
        updateDishStockField_frame find_update_first [OF Some] split: if_splits)
qed

lemma updateDishStock_returns:
  assumes "inventoryFile \<notin> unreadable st"
  shows "if inventoryFile \<in> unwritable st
         then updateDishStock d newStock additional st = (Inl (WriteFailed inventoryFile), st)
         else \<exists>item st'. updateDishStock d newStock additional st = (Inr item, st')"
  using assms
  by (auto simp: updateDishStock_def readInventory_def writeInventory_def Let_def
      split: option.splits)






section \<open>Write-through of the stock to the dish\<close>

text \<open>
  Claim C7 as stated (after every \<^verbatim>\<open>updateDishStock\<close> call the dish's stock equals the
  inventory record's stock) fails where the dishes file cannot be written: the call
  returns the updated record, the inventory holds the new stock 7, and
  \<^verbatim>\<open>updateDishStockField\<close> has caught and dropped the error, so the dish still holds 3.
\<close>

theorem updateDishStock_write_through_lost:
  "fst (updateDishStock ''dish_1'' 7 noAdditionalData dishesReadOnly) =
     Inr \<lparr>dishId = ''dish_1'', stock = 7, alertThreshold = Some 5, supplier = Some [],
          cost = Some 0, expiryDate = None, adjustmentReason = None, lastAdjustment = None\<rparr>
   \<and> getInventoryByDishId ''dish_1''
        (snd (updateDishStock ''dish_1'' 7 noAdditionalData dishesReadOnly)) =
     Inr (Some \<lparr>dishId = ''dish_1'', stock = 7, alertThreshold = Some 5, supplier = Some [],
          cost = Some 0, expiryDate = None, adjustmentReason = None, lastAdjustment = None\<rparr>)
   \<and> findById dish_id
        (dishes (snd (updateDishStock ''dish_1'' 7 noAdditionalData dishesReadOnly))) ''dish_1'' =
     Some \<lparr>dish_id = ''dish_1'', dish_categoryId = ''cat_1'', dish_name = ''Noodles'',
           dish_price = 12, dish_status = ''off'', dish_stock = 3\<rparr>"
  by (simp add: updateDishStock_def updateDishStockField_def updateDishStockField_try_def
      readInventory_def writeInventory_def readDishes_def writeDishes_def
      getInventoryByDishId_def findById_def findIndexById_def Let_def
      dishesReadOnly_def sampleStore_def noAdditionalData_def)

text \<open>
  Claim C7, amended. After every \<^verbatim>\<open>updateDishStock\<close> call that returns, the record found
  for the dish in the inventory is the one returned and holds the new stock. If the
  dishes file could be read and written, the dish found under that identifier, if there is
  one, is the old one with its stock set to the same value; if it could not, the dishes
  are left as they were.
\<close>

theorem updateDishStock_write_through:
  assumes "updateDishStock d newStock additional st = (Inr item, st')"
  shows "stock item = newStock
     \<and> find (\<lambda>x. dishId x = d) (inventory st') = Some item
     \<and> (dishesFile \<notin> unreadable st \<and> dishesFile \<notin> unwritable st \<longrightarrow>
          findById dish_id (dishes st') d =
            map_option (\<lambda>x. x\<lparr>dish_stock := newStock\<rparr>) (findById dish_id (dishes st) d)
          \<and> (\<forall>dish. findById dish_id (dishes st') d = Some dish \<longrightarrow> dish_stock dish = stock item))
     \<and> (dishesFile \<in> unreadable st \<or> dishesFile \<in> unwritable st \<longrightarrow> dishes st' = dishes st)"
proof -
  from updateDishStock_result [OF assms] obtain st1 where
    r: "stock item = newStock" "find (\<lambda>x. dishId x = d) (inventory st') = Some item"
    and s: "st' = updateDishStockField d newStock st1" "dishes st1 = dishes st"
      "unreadable st1 = unreadable st" "unwritable st1 = unwritable st"
    by blast
  have l: "dishesFile \<notin> unreadable st \<and> dishesFile \<notin> unwritable st \<longrightarrow>
          findById dish_id (dishes st') d =
            map_option (\<lambda>x. x\<lparr>dish_stock := newStock\<rparr>) (findById dish_id (dishes st) d)"
    using updateDishStockField_lookup [of st1 d newStock] s by simp
  have "dishesFile \<notin> unreadable st \<and> dishesFile \<notin> unwritable st \<longrightarrow>
      (\<forall>dish. findById dish_id (dishes st') d = Some dish \<longrightarrow> dish_stock dish = stock item)"
  proof (intro impI allI)
    fix dish
    assume "dishesFile \<notin> unreadable st \<and> dishesFile \<notin> unwritable st"
      and "findById dish_id (dishes st') d = Some dish"
    with l obtain x where "dish = x\<lparr>dish_stock := newStock\<rparr>"
      by (cases "findById dish_id (dishes st) d") auto
    with r(1) show "dish_stock dish = stock item" by simp
  qed
  moreover note l
  moreover have "dishesFile \<in> unreadable st \<or> dishesFile \<in> unwritable st \<longrightarrow>
      dishes st' = dishes st"
    using s by (auto simp: updateDishStockField_dishes)
  ultimately show ?thesis using r by blast
qed

text \<open>
  The theorem at the example state, where \<^verbatim>\<open>dish_1\<close> goes from 3 to 7 in both places, and
  at the state whose dishes cannot be written, where the dishes stay as they were.
\<close>

theorem updateDishStock_write_through_witness:
  "(\<exists>item st'. updateDishStock ''dish_1'' 7 noAdditionalData sampleStore = (Inr item, st')
       \<and> dishesFile \<notin> unreadable sampleStore \<and> dishesFile \<notin> unwritable sampleStore
       \<and> stock item = 7
       \<and> findById dish_id (dishes st') ''dish_1'' =
           Some \<lparr>dish_id = ''dish_1'', dish_categoryId = ''cat_1'', dish_name = ''Noodles'',
                 dish_price = 12, dish_status = ''off'', dish_stock = 7\<rparr>)
   \<and> (\<exists>item st'. updateDishStock ''dish_1'' 7 noAdditionalData dishesReadOnly = (Inr item, st')
       \<and> dishesFile \<in> unwritable dishesReadOnly
       \<and> stock item = 7 \<and> dishes st' = dishes dishesReadOnly)"
proof -
  have io: "inventoryFile \<notin> unreadable sampleStore" "inventoryFile \<notin> unwritable sampleStore"
    "dishesFile \<notin> unreadable sampleStore" "dishesFile \<notin> unwritable sampleStore"
    by (simp_all add: sampleStore_def)
  from updateDishStock_returns [OF io(1), of "''dish_1''" 7 noAdditionalData] io(2)
  obtain item st' where
    u: "updateDishStock ''dish_1'' 7 noAdditionalData sampleStore = (Inr item, st')"
    by auto
  have d: "findById dish_id (dishes sampleStore) ''dish_1'' =
      Some \<lparr>dish_id = ''dish_1'', dish_categoryId = ''cat_1'', dish_name = ''Noodles'',
            dish_price = 12, dish_status = ''off'', dish_stock = 3\<rparr>"
    by (simp add: sampleStore_def findById_def)
  from updateDishStock_write_through [OF u] io(3,4) d
  have "stock item = 7"
    and "findById dish_id (dishes st') ''dish_1'' =
           Some \<lparr>dish_id = ''dish_1'', dish_categoryId = ''cat_1'', dish_name = ''Noodles'',
                 dish_price = 12, dish_status = ''off'', dish_stock = 7\<rparr>"
    by simp_all
  with u io(3,4) have 1: "\<exists>item st'.
       updateDishStock ''dish_1'' 7 noAdditionalData sampleStore = (Inr item, st')
       \<and> dishesFile \<notin> unreadable sampleStore \<and> dishesFile \<notin> unwritable sampleStore
       \<and> stock item = 7
       \<and> findById dish_id (dishes st') ''dish_1'' =
           Some \<lparr>dish_id = ''dish_1'', dish_categoryId = ''cat_1'', dish_name = ''Noodles'',
                 dish_price = 12, dish_status = ''off'', dish_stock = 7\<rparr>"
    by blast
  have io': "inventoryFile \<notin> unreadable dishesReadOnly"
    "inventoryFile \<notin> unwritable dishesReadOnly" "dishesFile \<in> unwritable dishesReadOnly"
    by (simp_all add: dishesReadOnly_def sampleStore_def)
  from updateDishStock_returns [OF io'(1), of "''dish_1''" 7 noAdditionalData] io'(2)
  obtain item2 st2 where
    u2: "updateDishStock ''dish_1'' 7 noAdditionalData dishesReadOnly = (Inr item2, st2)"
    by auto
  from updateDishStock_write_through [OF u2] io'(3)
  have "stock item2 = 7" and "dishes st2 = dishes dishesReadOnly" by simp_all
  with u2 io'(3) have 2: "\<exists>item st'.
       updateDishStock ''dish_1'' 7 noAdditionalData dishesReadOnly = (Inr item, st')
       \<and> dishesFile \<in> unwritable dishesReadOnly
       \<and> stock item = 7 \<and> dishes st' = dishes dishesReadOnly"
    by blast
  from 1 2 show ?thesis by blast
qed

section \<open>Low stock\<close>

text \<open>
  Without a custom threshold, and with one that is not 0, the result is the low-stock
  records in ascending order of stock (records of equal stock in file order), each with
  the four dish properties added: the custom threshold where given, else the record's own.
\<close>

lemma insort_key_map:
  "insort_key f (g x) (map g ys) = map g (insort_key (\<lambda>y. f (g y)) x ys)"
  by (induction ys) auto

lemma sort_key_map: "sort_key f (map g xs) = map g (sort_key (\<lambda>y. f (g y)) xs)"
  by (induction xs) (auto simp: insort_key_map)

lemma getLowStockDishes_threshold:
  assumes "inventoryFile \<notin> unreadable st" and "dishesFile \<notin> unreadable st"
    and "customThreshold = None \<or> (\<exists>t. customThreshold = Some t \<and> t \<noteq> 0)"
  shows "\<exists>res. getLowStockDishes customThreshold st = Inr res
     \<and> map inventoryItem.truncate res =
         sort_key stock
           (filter (\<lambda>item. case customThreshold of
                              Some t \<Rightarrow> stock item \<le> t
                            | None \<Rightarrow> stock_le (stock item) (alertThreshold item))
                   (inventory st))
     \<and> sorted (map stock res)"
proof -
  let ?enrich = "\<lambda>inventoryItem.
      let dish = findById dish_id (dishes st) (dishId inventoryItem)
      in inventoryItem.extend inventoryItem
           (lowStockDish.fields
              (case dish of Some x \<Rightarrow> dish_name x | None \<Rightarrow> ''Unknown Dish'')
              (case dish of Some x \<Rightarrow> dish_price x | None \<Rightarrow> 0)
              (case dish of Some x \<Rightarrow> dish_status x | None \<Rightarrow> ''unknown'')
              (case dish of Some x \<Rightarrow> Some (dish_categoryId x) | None \<Rightarrow> None))"
  let ?low = "filter (\<lambda>item. case customThreshold of
                              Some t \<Rightarrow> stock item \<le> t
                            | None \<Rightarrow> stock_le (stock item) (alertThreshold item))
                   (inventory st)"
  have f: "(\<lambda>item. stock_le (stock item)
                     (or_undefined customThreshold (alertThreshold item))) =
           (\<lambda>item. case customThreshold of
                              Some t \<Rightarrow> stock item \<le> t
                            | None \<Rightarrow> stock_le (stock item) (alertThreshold item))"
    using assms(3) by (auto simp: or_undefined_def stock_le_def fun_eq_iff)
  have s: "\<And>x. stock (?enrich x) = stock x"
    by (simp add: Let_def inventoryItem.extend_def)
  have t: "\<And>x. inventoryItem.truncate (?enrich x) = x"
    by (simp add: Let_def inventoryItem.extend_def inventoryItem.truncate_def)
  have r: "getLowStockDishes customThreshold st = Inr (sort_key stock (map ?enrich ?low))"
    using assms(1,2) by (simp add: getLowStockDishes_def readInventory_def readDishes_def f Let_def)
  have "map inventoryItem.truncate (sort_key stock (map ?enrich ?low)) = sort_key stock ?low"
    by (simp only: sort_key_map s map_map o_def t map_ident)
  moreover have "sorted (map stock (sort_key stock (map ?enrich ?low)))"
    by (rule sorted_sort_key)
  ultimately show ?thesis using r by simp
qed

text \<open>
  Claim C2 at a custom threshold of 0. The claim takes the threshold to be 0, under which
  \<^verbatim>\<open>dish_1\<close> with a stock of 3 is not low. \<^verbatim>\<open>getLowStockDishes\<close> computes the threshold as
  \<^verbatim>\<open>customThreshold || item.alertThreshold\<close>, where 0 is falsy, compares the stock with the
  record's own threshold 5, and lists the dish: the result is the one for no custom
  threshold at all.
\<close>

theorem getLowStockDishes_zero_threshold_ignored:
  "getLowStockDishes (Some 0) sampleStore =
     Inr [\<lparr>dishId = ''dish_1'', stock = 3, alertThreshold = Some 5, supplier = Some [],
           cost = Some 0, expiryDate = None, adjustmentReason = None, lastAdjustment = None,
           dishName = ''Noodles'', dishPrice = 12, dishStatus = ''off'',
           categoryId = Some ''cat_1''\<rparr>]
   \<and> getLowStockDishes (Some 0) sampleStore = getLowStockDishes None sampleStore"
  by (simp add: getLowStockDishes_def readInventory_def readDishes_def or_undefined_def
      stock_le_def findById_def sampleStore_def inventoryItem.extend_def
      lowStockDish.fields_def)

section \<open>Creating a dish\<close>

lemma generateId_from_fresh: "generateId_from prefix ids counter \<notin> set ids"
  by (induction prefix ids counter rule: generateId_from.induct)
     (simp add: generateId_from.simps)

lemma generateId_fresh: "generateId prefix ids \<notin> set ids"
  by (simp add: generateId_def generateId_from_fresh)

lemma createInventoryEntry_frame:
  "dishes (createInventoryEntry newId n st) = dishes st"
  "categories (createInventoryEntry newId n st) = categories st"
  "unreadable (createInventoryEntry newId n st) = unreadable st"
  "unwritable (createInventoryEntry newId n st) = unwritable st"
  by (auto simp: createInventoryEntry_def createInventoryEntry_try_def readInventory_def
      writeInventory_def split: option.splits)

lemma createInventoryEntry_inventory:
  "inventory (createInventoryEntry newId n st) =
     (if inventoryFile \<notin> unreadable st \<and> inventoryFile \<notin> unwritable st
         \<and> find (\<lambda>item. dishId item = newId) (inventory st) = None
      then inventory st @
             [\<lparr> dishId = newId, stock = n, alertThreshold = Some 5, supplier = Some [],
                cost = Some 0, expiryDate = None, adjustmentReason = None,
                lastAdjustment = None \<rparr>]
      else inventory st)"
  by (auto simp: createInventoryEntry_def createInventoryEntry_try_def readInventory_def
      writeInventory_def split: option.splits)

lemma validateRequiredFields_dishData:
  "validateRequiredFields (dishDataMissing d) [''name'', ''categoryId'', ''price''] =
     (if dishDataMissing d ''name'' \<or> dishDataMissing d ''categoryId'' \<or> dishDataMissing d ''price''
      then Inl (MissingRequiredFields
                  (filter (dishDataMissing d) [''name'', ''categoryId'', ''price'']))
      else Inr ())"
  by (simp add: validateRequiredFields_def)

lemma createDish_unknown_category:
  assumes "dishesFile \<notin> unreadable st" "categoriesFile \<notin> unreadable st"
    and "\<forall>c. data_categoryId dishData = Some c \<longrightarrow> findById cat_id (categories st) c = None"
  shows "\<exists>e. createDish dishData st = (Inl e, st) \<and> kindOf e = ValidationError"
proof (cases "dishDataMissing dishData ''name'' \<or> dishDataMissing dishData ''categoryId''
    \<or> dishDataMissing dishData ''price''")
  case True
  then show ?thesis
    using assms(1)
    by (simp add: createDish_def readDishes_def validateRequiredFields_dishData
        del: filter.simps)
next
  case False
  then obtain c where c: "data_categoryId dishData = Some c"
    by (auto simp: dishDataMissing_def)
  with assms(3) have "findById cat_id (categories st) c = None" by simp
  with False c assms(1,2) show ?thesis
    by (simp add: createDish_def readDishes_def validateRequiredFields_dishData
        getCategoryById_def readCategories_def del: filter.simps)
qed

lemma createDish_known_category:
  assumes "dishesFile \<notin> unreadable st" "categoriesFile \<notin> unreadable st"
    and "data_name dishData = Some name" "name \<noteq> []"
    and "data_categoryId dishData = Some c" "c \<noteq> []"
    and "data_price dishData = Some p"
    and "findById cat_id (categories st) c = Some category"
    and "dishesFile \<notin> unwritable st"
  shows "createDish dishData st =
     (Inr \<lparr> dish_id = generateId ''dish_'' (map dish_id (dishes st)),
            dish_categoryId = c, dish_name = name, dish_price = p,
            dish_status = or_string (data_status dishData) ''on'',
            dish_stock = or_int (data_stock dishData) 0 \<rparr>,
      createInventoryEntry (generateId ''dish_'' (map dish_id (dishes st)))
        (or_int (data_stock dishData) 0)
        (st\<lparr>dishes := dishes st @
              [\<lparr> dish_id = generateId ''dish_'' (map dish_id (dishes st)),
                 dish_categoryId = c, dish_name = name, dish_price = p,
                 dish_status = or_string (data_status dishData) ''on'',
                 dish_stock = or_int (data_stock dishData) 0 \<rparr>]\<rparr>))"
proof -
  have "\<not> (dishDataMissing dishData ''name'' \<or> dishDataMissing dishData ''categoryId''
    \<or> dishDataMissing dishData ''price'')"
    using assms by (simp add: dishDataMissing_def)
  then show ?thesis
    using assms
    by (simp add: createDish_def readDishes_def validateRequiredFields_dishData
        getCategoryById_def readCategories_def writeDishes_def Let_def del: filter.simps)
qed

lemma or_int_zero: "or_int a 0 = (case a of Some v \<Rightarrow> v | None \<Rightarrow> 0)"
  by (simp add: or_int_def split: option.splits)

lemma find_None_filter: "find P xs = None \<Longrightarrow> filter P xs = []"
  by (induction xs) (auto split: if_splits)

lemma orphanStore_reached:
  "snd (updateDishStock ''dish_1'' 9 noAdditionalData emptyMenu) = orphanStore"
  by (simp add: updateDishStock_def updateDishStockField_def updateDishStockField_try_def
      readInventory_def writeInventory_def readDishes_def findIndexById_def Let_def
      or_int_def or_string_def or_real_def
      emptyMenu_def orphanStore_def noAdditionalData_def)

text \<open>
  Claim C5 as stated (a successful \<^verbatim>\<open>createDish\<close> leaves exactly one inventory record
  keyed by the new dish, with the requested initial stock) fails where the inventory
  already holds a record under the identifier the new dish is given: \<^verbatim>\<open>createInventoryEntry\<close>
  returns at its check for an existing entry. The dish is created as \<^verbatim>\<open>dish_1\<close> with
  stock 3, and the record of \<^verbatim>\<open>dish_1\<close> keeps its stock of 9.
\<close>

theorem createDish_keeps_existing_inventory_record:
  "fst (createDish soup orphanStore) =
     Inr \<lparr>dish_id = ''dish_1'', dish_categoryId = ''cat_1'', dish_name = ''Soup'',
          dish_price = 6, dish_status = ''on'', dish_stock = 3\<rparr>
   \<and> inventory (snd (createDish soup orphanStore)) =
     [\<lparr>dishId = ''dish_1'', stock = 9, alertThreshold = Some 5, supplier = Some [],
       cost = Some 0, expiryDate = None, adjustmentReason = None, lastAdjustment = None\<rparr>]"
proof -
  have g: "generateId ''dish_'' [] = ''dish_1''"
    by (simp add: generateId_def generateId_from.simps [of _ "[]"] string_of_nat.simps
        digit_def)
  have "createDish soup orphanStore =
     (Inr \<lparr>dish_id = ''dish_1'', dish_categoryId = ''cat_1'', dish_name = ''Soup'',
           dish_price = 6, dish_status = ''on'', dish_stock = 3\<rparr>,
      createInventoryEntry ''dish_1'' 3
        (orphanStore\<lparr>dishes :=
           [\<lparr>dish_id = ''dish_1'', dish_categoryId = ''cat_1'', dish_name = ''Soup'',
             dish_price = 6, dish_status = ''on'', dish_stock = 3\<rparr>]\<rparr>))"
    using createDish_known_category [of orphanStore soup "''Soup''" "''cat_1''" 6
        "\<lparr>cat_id = ''cat_1'', cat_name = ''Mains'', description = [], sortOrder = 1,
          isActive = True\<rparr>"]
    by (simp add: orphanStore_def emptyMenu_def soup_def findById_def g or_int_def
        or_string_def)
  then show ?thesis
    by (simp add: createInventoryEntry_inventory) (simp add: orphanStore_def emptyMenu_def)
qed

text \<open>
  Claim C5, amended. With the dishes and the categories readable: \<^verbatim>\<open>createDish\<close> fails with
  a validation error, and changes nothing, when \<open>categoryId\<close> does not resolve to a
  category. With the required properties present, the category found and the dishes
  writable, it appends the dish under an identifier no dish has yet, with the requested
  stock (0 when none is requested), and succeeds whatever becomes of the inventory: if the
  inventory can be read and written and holds no record under the new identifier, one
  record with the requested stock is appended and is the only one under that identifier;
  if a record exists already, or the inventory cannot be read or written, the inventory
  is left as it was.
\<close>

theorem createDish_category_and_inventory:
  assumes "dishesFile \<notin> unreadable st" and "categoriesFile \<notin> unreadable st"
  shows "((\<forall>c. data_categoryId dishData = Some c \<longrightarrow> findById cat_id (categories st) c = None)
           \<longrightarrow> (\<exists>e. createDish dishData st = (Inl e, st) \<and> kindOf e = ValidationError))
     \<and> (\<forall>name c p category.
           data_name dishData = Some name \<and> name \<noteq> []
           \<and> data_categoryId dishData = Some c \<and> c \<noteq> []
           \<and> data_price dishData = Some p
           \<and> findById cat_id (categories st) c = Some category
           \<and> dishesFile \<notin> unwritable st \<longrightarrow>
           (\<exists>newDish st' entry.
              createDish dishData st = (Inr newDish, st')
              \<and> dish_id newDish \<notin> set (map dish_id (dishes st))
              \<and> dish_categoryId newDish = c
              \<and> dish_stock newDish = (case data_stock dishData of Some v \<Rightarrow> v | None \<Rightarrow> 0)
              \<and> dishes st' = dishes st @ [newDish]
              \<and> entry =
                  \<lparr> dishId = dish_id newDish,
                    stock = (case data_stock dishData of Some v \<Rightarrow> v | None \<Rightarrow> 0),
                    alertThreshold = Some 5, supplier = Some [], cost = Some 0,
                    expiryDate = None, adjustmentReason = None, lastAdjustment = None \<rparr>
              \<and> (inventoryFile \<notin> unreadable st \<and> inventoryFile \<notin> unwritable st
                   \<and> find (\<lambda>item. dishId item = dish_id newDish) (inventory st) = None \<longrightarrow>
                   inventory st' = inventory st @ [entry]
                   \<and> filter (\<lambda>item. dishId item = dish_id newDish) (inventory st') = [entry])
              \<and> (inventoryFile \<in> unreadable st \<or> inventoryFile \<in> unwritable st
                   \<or> find (\<lambda>item. dishId item = dish_id newDish) (inventory st) \<noteq> None \<longrightarrow>
                   inventory st' = inventory st)))"
proof (intro conjI impI allI)
  assume "\<forall>c. data_categoryId dishData = Some c \<longrightarrow> findById cat_id (categories st) c = None"
  with assms show "\<exists>e. createDish dishData st = (Inl e, st) \<and> kindOf e = ValidationError"
    by (rule createDish_unknown_category)
next
  fix name c p category
  assume h: "data_name dishData = Some name \<and> name \<noteq> []
           \<and> data_categoryId dishData = Some c \<and> c \<noteq> []
           \<and> data_price dishData = Some p
           \<and> findById cat_id (categories st) c = Some category
           \<and> dishesFile \<notin> unwritable st"
  define newId where "newId = generateId ''dish_'' (map dish_id (dishes st))"
  define n where "n = (case data_stock dishData of Some v \<Rightarrow> v | None \<Rightarrow> (0::int))"
  define newDish where "newDish =
      \<lparr> dish_id = newId, dish_categoryId = c, dish_name = name, dish_price = p,
        dish_status = or_string (data_status dishData) ''on'', dish_stock = n \<rparr>"
  define st1 where "st1 = st\<lparr>dishes := dishes st @ [newDish]\<rparr>"
  define st' where "st' = createInventoryEntry newId n st1"
  define entry where "entry =
      \<lparr> dishId = newId, stock = n, alertThreshold = Some 5, supplier = Some [],
        cost = Some 0, expiryDate = None, adjustmentReason = None, lastAdjustment = None \<rparr>"
  have cd: "createDish dishData st = (Inr newDish, st')"
    using createDish_known_category [OF assms, of dishData name c p category] h
    by (simp add: newDish_def st'_def st1_def newId_def n_def or_int_zero)
  have fresh: "dish_id newDish \<notin> set (map dish_id (dishes st))"
    unfolding newDish_def newId_def using generateId_fresh [of "''dish_''" "map dish_id (dishes st)"]
    by simp
  have ds: "dishes st' = dishes st @ [newDish]"
    by (simp add: st'_def st1_def createInventoryEntry_frame)
  have inv: "inventory st' =
      (if inventoryFile \<notin> unreadable st \<and> inventoryFile \<notin> unwritable st
          \<and> find (\<lambda>item. dishId item = newId) (inventory st) = None
       then inventory st @ [entry] else inventory st)"
    by (simp add: st'_def st1_def createInventoryEntry_inventory entry_def)
  have id: "dish_id newDish = newId" and cat: "dish_categoryId newDish = c"
    by (simp_all add: newDish_def)
  have stk: "dish_stock newDish = (case data_stock dishData of Some v \<Rightarrow> v | None \<Rightarrow> 0)"
    by (simp add: newDish_def n_def)
  have ent: "entry =
      \<lparr> dishId = dish_id newDish,
        stock = (case data_stock dishData of Some v \<Rightarrow> v | None \<Rightarrow> 0),
        alertThreshold = Some 5, supplier = Some [], cost = Some 0,
        expiryDate = None, adjustmentReason = None, lastAdjustment = None \<rparr>"
    by (simp add: entry_def id n_def)
  have one: "inventoryFile \<notin> unreadable st \<and> inventoryFile \<notin> unwritable st
       \<and> find (\<lambda>item. dishId item = dish_id newDish) (inventory st) = None \<longrightarrow>
       inventory st' = inventory st @ [entry]
       \<and> filter (\<lambda>item. dishId item = dish_id newDish) (inventory st') = [entry]"
    unfolding id using inv by (auto simp: find_None_filter entry_def)
  have none: "inventoryFile \<in> unreadable st \<or> inventoryFile \<in> unwritable st
       \<or> find (\<lambda>item. dishId item = dish_id newDish) (inventory st) \<noteq> None \<longrightarrow>
       inventory st' = inventory st"
    unfolding id using inv by auto
  show "\<exists>newDish st' entry.
          createDish dishData st = (Inr newDish, st')
          \<and> dish_id newDish \<notin> set (map dish_id (dishes st))
          \<and> dish_categoryId newDish = c
          \<and> dish_stock newDish = (case data_stock dishData of Some v \<Rightarrow> v | None \<Rightarrow> 0)
          \<and> dishes st' = dishes st @ [newDish]
          \<and> entry =
              \<lparr> dishId = dish_id newDish,
                stock = (case data_stock dishData of Some v \<Rightarrow> v | None \<Rightarrow> 0),
                alertThreshold = Some 5, supplier = Some [], cost = Some 0,
                expiryDate = None, adjustmentReason = None, lastAdjustment = None \<rparr>
          \<and> (inventoryFile \<notin> unreadable st \<and> inventoryFile \<notin> unwritable st
               \<and> find (\<lambda>item. dishId item = dish_id newDish) (inventory st) = None \<longrightarrow>
               inventory st' = inventory st @ [entry]
               \<and> filter (\<lambda>item. dishId item = dish_id newDish) (inventory st') = [entry])
          \<and> (inventoryFile \<in> unreadable st \<or> inventoryFile \<in> unwritable st
               \<or> find (\<lambda>item. dishId item = dish_id newDish) (inventory st) \<noteq> None \<longrightarrow>
               inventory st' = inventory st)"
    using cd fresh cat stk ds ent one none by blast
qed
text \<open>
  The theorem at the example state: an unknown category is refused; the dish is created
  with one inventory record holding the requested stock of 3; and with an inventory that
  cannot be written the dish is created all the same, the inventory staying as it was.
\<close>

theorem createDish_category_and_inventory_witness:
  "dishesFile \<notin> unreadable sampleStore \<and> categoriesFile \<notin> unreadable sampleStore
   \<and> (\<exists>e. createDish (soup\<lparr>data_categoryId := Some ''cat_9''\<rparr>) sampleStore =
             (Inl e, sampleStore) \<and> kindOf e = ValidationError)
   \<and> (\<exists>newDish st'. createDish soup sampleStore = (Inr newDish, st')
         \<and> dish_stock newDish = 3
         \<and> filter (\<lambda>item. dishId item = dish_id newDish) (inventory st') =
             [\<lparr>dishId = dish_id newDish, stock = 3, alertThreshold = Some 5,
               supplier = Some [], cost = Some 0, expiryDate = None,
               adjustmentReason = None, lastAdjustment = None\<rparr>])
   \<and> (\<exists>newDish st'. createDish soup (sampleStore\<lparr>unwritable := {inventoryFile}\<rparr>) =
             (Inr newDish, st')
         \<and> inventory st' = inventory sampleStore)"
proof -
  have r: "dishesFile \<notin> unreadable sampleStore" "categoriesFile \<notin> unreadable sampleStore"
    by (simp_all add: sampleStore_def)
  have r': "dishesFile \<notin> unreadable (sampleStore\<lparr>unwritable := {inventoryFile}\<rparr>)"
    "categoriesFile \<notin> unreadable (sampleStore\<lparr>unwritable := {inventoryFile}\<rparr>)"
    by (simp_all add: sampleStore_def)
  have c1: "findById cat_id (categories sampleStore) ''cat_1'' =
      Some \<lparr>cat_id = ''cat_1'', cat_name = ''Mains'', description = [], sortOrder = 1,
            isActive = True\<rparr>"
    and c9: "findById cat_id (categories sampleStore) ''cat_9'' = None"
    by (simp_all add: sampleStore_def findById_def)
  from createDish_category_and_inventory [OF r, of "soup\<lparr>data_categoryId := Some ''cat_9''\<rparr>"] c9
  have 1: "\<exists>e. createDish (soup\<lparr>data_categoryId := Some ''cat_9''\<rparr>) sampleStore =
             (Inl e, sampleStore) \<and> kindOf e = ValidationError"
    by simp
  from createDish_category_and_inventory [OF r, of soup] c1
  obtain newDish st' where
    a: "createDish soup sampleStore = (Inr newDish, st')"
    and f: "dish_id newDish \<notin> set (map dish_id (dishes sampleStore))"
    and s: "dish_stock newDish = 3"
    and i: "inventoryFile \<notin> unreadable sampleStore \<and> inventoryFile \<notin> unwritable sampleStore
        \<and> find (\<lambda>item. dishId item = dish_id newDish) (inventory sampleStore) = None \<longrightarrow>
        filter (\<lambda>item. dishId item = dish_id newDish) (inventory st') =
          [\<lparr>dishId = dish_id newDish, stock = 3, alertThreshold = Some 5,
            supplier = Some [], cost = Some 0, expiryDate = None,
            adjustmentReason = None, lastAdjustment = None\<rparr>]"
    by (auto simp: soup_def sampleStore_def)
  from f have "find (\<lambda>item. dishId item = dish_id newDish) (inventory sampleStore) = None"
    by (auto simp: sampleStore_def)
  with i have 2: "filter (\<lambda>item. dishId item = dish_id newDish) (inventory st') =
          [\<lparr>dishId = dish_id newDish, stock = 3, alertThreshold = Some 5,
            supplier = Some [], cost = Some 0, expiryDate = None,
            adjustmentReason = None, lastAdjustment = None\<rparr>]"
    by (simp add: sampleStore_def)
  from createDish_category_and_inventory [OF r', of soup] c1
  obtain newDish2 st2 where
    b: "createDish soup (sampleStore\<lparr>unwritable := {inventoryFile}\<rparr>) = (Inr newDish2, st2)"
    and 3: "inventory st2 = inventory sampleStore"
    by (auto simp: soup_def sampleStore_def)
  from r 1 a s 2 b 3 show ?thesis by blast
qed

section \<open>Synchronising the inventory with the dishes\<close>

text \<open>One round of the loop, as the function applies it to the accumulator.\<close>

lemma synchronizeLoop_Cons:
  "synchronizeLoop (dish # rest) (items, c, u) =
     synchronizeLoop rest
       (case findIndex (\<lambda>item. dishId item = dish_id dish) items of
          None \<Rightarrow>
            (items @
               [\<lparr> dishId = dish_id dish, stock = dish_stock dish,
                  alertThreshold = Some 5, supplier = Some [], cost = Some 0,
                  expiryDate = None, adjustmentReason = None, lastAdjustment = None \<rparr>],
             c + 1, u)
        | Some i \<Rightarrow>
            if stock (items ! i) \<noteq> dish_stock dish
            then (items[i := (items ! i)\<lparr>stock := dish_stock dish\<rparr>], c, u + 1)
            else (items, c, u))"
  by (simp add: or_int_def cong: option.case_cong)

lemma inSync_iff:
  "inSync ds items \<longleftrightarrow>
     (\<forall>dish\<in>set ds. \<exists>item. find (\<lambda>x. dishId x = dish_id dish) items = Some item
        \<and> stock item = dish_stock dish)"
  by (auto simp: inSync_def list_all_iff split: option.splits)

text \<open>A round on a dish leaves the records found for the other identifiers as they were.\<close>

lemma round_other:
  assumes "k \<noteq> dish_id dish"
  shows "find (\<lambda>x. dishId x = k)
      (fst (case findIndex (\<lambda>item. dishId item = dish_id dish) items of
          None \<Rightarrow>
            (items @
               [\<lparr> dishId = dish_id dish, stock = dish_stock dish,
                  alertThreshold = Some 5, supplier = Some [], cost = Some 0,
                  expiryDate = None, adjustmentReason = None, lastAdjustment = None \<rparr>],
             c + 1, u)
        | Some i \<Rightarrow>
            if stock (items ! i) \<noteq> dish_stock dish
            then (items[i := (items ! i)\<lparr>stock := dish_stock dish\<rparr>], c, u + 1)
            else (items, c, u)))
    = find (\<lambda>x. dishId x = k) items"
proof (cases "findIndex (\<lambda>item. dishId item = dish_id dish) items")
  case None
  with assms show ?thesis
    by (simp add: find_append_first split: option.splits)
next
  case (Some i)
  from findIndex_Some [OF Some] have "dishId (items ! i) = dish_id dish" by simp
  with assms Some show ?thesis
    by (simp add: find_update_first [OF Some])
qed

text \<open>After its round, the record found for the dish holds the dish's stock.\<close>

lemma round_self:
  "\<exists>item. find (\<lambda>x. dishId x = dish_id dish)
      (fst (case findIndex (\<lambda>item. dishId item = dish_id dish) items of
          None \<Rightarrow>
            (items @
               [\<lparr> dishId = dish_id dish, stock = dish_stock dish,
                  alertThreshold = Some 5, supplier = Some [], cost = Some 0,
                  expiryDate = None, adjustmentReason = None, lastAdjustment = None \<rparr>],
             c + 1, u)
        | Some i \<Rightarrow>
            if stock (items ! i) \<noteq> dish_stock dish
            then (items[i := (items ! i)\<lparr>stock := dish_stock dish\<rparr>], c, u + 1)
            else (items, c, u))) = Some item
     \<and> stock item = dish_stock dish"
proof (cases "findIndex (\<lambda>item. dishId item = dish_id dish) items")
  case None
  then have "find (\<lambda>item. dishId item = dish_id dish) items = None"
    by (simp add: find_None_findIndex)
  with None show ?thesis by (simp add: find_append_first)
next
  case (Some i)
  from findIndex_Some [OF Some] have "dishId (items ! i) = dish_id dish"
    and "find (\<lambda>item. dishId item = dish_id dish) items = Some (items ! i)" by simp_all
  with Some show ?thesis
    by (simp add: find_update_first [OF Some])
qed

lemma synchronizeLoop_inSync:
  assumes "distinct (map dish_id (seen @ ds))"
    and "inSync seen items"
    and "synchronizeLoop ds (items, c, u) = (items', c', u')"
  shows "inSync (seen @ ds) items'"
  using assms
proof (induction ds arbitrary: seen items c u)
  case Nil
  then show ?case by simp
next
  case (Cons dish rest)
  let ?acc = "case findIndex (\<lambda>item. dishId item = dish_id dish) items of
          None \<Rightarrow>
            (items @
               [\<lparr> dishId = dish_id dish, stock = dish_stock dish,
                  alertThreshold = Some 5, supplier = Some [], cost = Some 0,
                  expiryDate = None, adjustmentReason = None, lastAdjustment = None \<rparr>],
             c + 1, u)
        | Some i \<Rightarrow>
            if stock (items ! i) \<noteq> dish_stock dish
            then (items[i := (items ! i)\<lparr>stock := dish_stock dish\<rparr>], c, u + 1)
            else (items, c, u)"
  obtain items1 c1 u1 where acc: "?acc = (items1, c1, u1)" by (cases ?acc) auto
  from Cons.prems(3) acc have loop: "synchronizeLoop rest (items1, c1, u1) = (items', c', u')"
    by (simp only: synchronizeLoop_Cons)
  have s1: "inSync (seen @ [dish]) items1"
    unfolding inSync_iff
  proof
    fix d assume d: "d \<in> set (seen @ [dish])"
    show "\<exists>item. find (\<lambda>x. dishId x = dish_id d) items1 = Some item
        \<and> stock item = dish_stock d"
    proof (cases "dish_id d = dish_id dish")
      case True
      have "d \<notin> set seen"
      proof
        assume "d \<in> set seen"
        then have "dish_id d \<in> set (map dish_id seen)" by simp
        with True Cons.prems(1) show False by simp
      qed
      with d have "d = dish" by simp
      with round_self [of dish items c u] acc show ?thesis by simp
    next
      case False
      with d have "d \<in> set seen" by auto
      with Cons.prems(2) obtain item where
        "find (\<lambda>x. dishId x = dish_id d) items = Some item" "stock item = dish_stock d"
        by (auto simp: inSync_iff)
      with round_other [OF False, of items c u] acc show ?thesis by simp
    qed
  qed
  from Cons.prems(1) have dist: "distinct (map dish_id ((seen @ [dish]) @ rest))" by simp
  from Cons.IH [OF dist s1 loop] show ?case by simp
qed

lemma synchronizeLoop_fixed:
  "inSync ds items \<Longrightarrow> synchronizeLoop ds (items, c, u) = (items, c, u)"
proof (induction ds)
  case Nil
  then show ?case by simp
next
  case (Cons dish rest)
  from Cons.prems obtain item where
    f: "find (\<lambda>x. dishId x = dish_id dish) items = Some item" and s: "stock item = dish_stock dish"
    and rest: "inSync rest items"
    by (auto simp: inSync_iff)
  from find_Some_findIndex [OF f] obtain i where
    "findIndex (\<lambda>x. dishId x = dish_id dish) items = Some i" "items ! i = item" by blast
  with s have "synchronizeLoop (dish # rest) (items, c, u) = synchronizeLoop rest (items, c, u)"
    by (simp add: synchronizeLoop_Cons del: synchronizeLoop.simps)
  with Cons.IH [OF rest] show ?case by simp
qed

lemma synchronizeLoop_counts:
  "synchronizeLoop ds (items, c, u) = (items', c', u') \<Longrightarrow>
     c \<le> c' \<and> u \<le> u' \<and> (c' = c \<and> u' = u \<longrightarrow> items' = items)"
proof (induction ds arbitrary: items c u)
  case Nil
  then show ?case by simp
next
  case (Cons dish rest)
  show ?case
  proof (cases "findIndex (\<lambda>item. dishId item = dish_id dish) items")
    case None
    with Cons.prems have "synchronizeLoop rest
        (items @
           [\<lparr> dishId = dish_id dish, stock = dish_stock dish,
              alertThreshold = Some 5, supplier = Some [], cost = Some 0,
              expiryDate = None, adjustmentReason = None, lastAdjustment = None \<rparr>],
         c + 1, u) = (items', c', u')"
      by (simp add: synchronizeLoop_Cons del: synchronizeLoop.simps)
    from Cons.IH [OF this] show ?thesis by auto
  next
    case (Some i)
    show ?thesis
    proof (cases "stock (items ! i) \<noteq> dish_stock dish")
      case True
      with Some Cons.prems have "synchronizeLoop rest
          (items[i := (items ! i)\<lparr>stock := dish_stock dish\<rparr>], c, u + 1) = (items', c', u')"
        by (simp add: synchronizeLoop_Cons del: synchronizeLoop.simps)
      from Cons.IH [OF this] show ?thesis by auto
    next
      case False
      with Some Cons.prems have "synchronizeLoop rest (items, c, u) = (items', c', u')"
        by (simp add: synchronizeLoop_Cons del: synchronizeLoop.simps)
      from Cons.IH [OF this] show ?thesis by auto
    qed
  qed
qed

text \<open>
  Dish identifiers stay distinct: the one way a dish is added gives it an unused one.
\<close>

lemma createDish_keeps_ids_distinct:
  assumes "distinct (map dish_id (dishes st))" and "createDish dishData st = (Inr newDish, st')"
  shows "distinct (map dish_id (dishes st'))"
proof -
  from assms(2) have "dishes st' = dishes st @ [newDish]
      \<and> dish_id newDish = generateId ''dish_'' (map dish_id (dishes st))"
    by (auto simp: createDish_def readDishes_def writeDishes_def getCategoryById_def
        readCategories_def Let_def createInventoryEntry_frame
        split: sum.splits option.splits if_splits)
  with assms(1) generateId_fresh [of "''dish_''" "map dish_id (dishes st)"] show ?thesis
    by simp
qed

text \<open>
  Claim C8 as stated (for every dish and inventory state the second run reports
  \<open>created = 0\<close> and \<open>updated = 0\<close>) fails where two dishes share an identifier: the one
  inventory record found under that identifier is set to the stock of each of them in turn,
  so every run changes it twice. With stocks 3 and 5 the first run creates the record and
  updates it once, and the second run reports two updates.
\<close>

theorem synchronizeInventory_duplicate_ids_update_again:
  "fst (synchronizeInventory duplicateIds) = Inr \<lparr> created = 1, updated = 1, total = 1 \<rparr>
   \<and> map stock (inventory (snd (synchronizeInventory duplicateIds))) = [5]
   \<and> fst (synchronizeInventory (snd (synchronizeInventory duplicateIds))) =
       Inr \<lparr> created = 0, updated = 2, total = 1 \<rparr>"
  by (simp add: synchronizeInventory_def readDishes_def readInventory_def writeInventory_def
      or_int_def duplicateIds_def)

text \<open>
  Claim C8, amended. For a state whose dishes carry distinct identifiers (each with its
  integer stock, as every dish of the model has): if a run of \<^verbatim>\<open>synchronizeInventory\<close>
  returns, then in the state it leaves every dish has an inventory record, the one found
  for it holding the dish's stock; and a second run on that state reports \<open>created = 0\<close>
  and \<open>updated = 0\<close> and changes nothing.
\<close>

theorem synchronizeInventory_idempotent:
  assumes "distinct (map dish_id (dishes st))"
    and "synchronizeInventory st = (Inr result, st')"
  shows "dishes st' = dishes st
     \<and> inSync (dishes st') (inventory st')
     \<and> synchronizeInventory st' =
         (Inr \<lparr> created = 0, updated = 0, total = length (inventory st') \<rparr>, st')"
proof -
  from assms(2) have rd: "dishesFile \<notin> unreadable st" "inventoryFile \<notin> unreadable st"
    by (auto simp: synchronizeInventory_def readDishes_def readInventory_def
        split: if_splits)
  obtain items' c u where
    loop: "synchronizeLoop (dishes st) (inventory st, 0, 0) = (items', c, u)"
    by (cases "synchronizeLoop (dishes st) (inventory st, 0, 0)") auto
  have "inSync [] (inventory st)" by (simp add: inSync_def)
  with assms(1) loop have sync: "inSync (dishes st) items'"
    using synchronizeLoop_inSync [of "[]" "dishes st" "inventory st" 0 0 items' c u] by simp
  have st': "dishes st' = dishes st" "inventory st' = items'"
    "unreadable st' = unreadable st"
  proof -
    show "dishes st' = dishes st" "unreadable st' = unreadable st"
      using assms(2) rd loop
      by (auto simp: synchronizeInventory_def readDishes_def readInventory_def
          writeInventory_def Let_def split: if_splits)
    show "inventory st' = items'"
    proof (cases "c > 0 \<or> u > 0")
      case True
      with assms(2) rd loop show ?thesis
        by (auto simp: synchronizeInventory_def readDishes_def readInventory_def
            writeInventory_def Let_def split: if_splits)
    next
      case False
      with synchronizeLoop_counts [OF loop] have "items' = inventory st" by simp
      moreover from False assms(2) rd loop have "st' = st"
        by (auto simp: synchronizeInventory_def readDishes_def readInventory_def Let_def)
      ultimately show ?thesis by simp
    qed
  qed
  from sync st' have 2: "inSync (dishes st') (inventory st')" by simp
  from synchronizeLoop_fixed [OF 2, of 0 0] rd st'
  have 3: "synchronizeInventory st' =
         (Inr \<lparr> created = 0, updated = 0, total = length (inventory st') \<rparr>, st')"
    by (simp add: synchronizeInventory_def readDishes_def readInventory_def)
  from st'(1) 2 3 show ?thesis by blast
qed

text \<open>
  The theorem at the state with the stale inventory: the first run creates one record and
  updates one, the second run does neither.
\<close>

theorem synchronizeInventory_idempotent_witness:
  "distinct (map dish_id (dishes staleStore))
   \<and> (\<exists>result st'. synchronizeInventory staleStore = (Inr result, st')
         \<and> created result = 1 \<and> updated result = 1
         \<and> synchronizeInventory st' = (Inr \<lparr> created = 0, updated = 0, total = 2 \<rparr>, st'))"
proof -
  let ?st' = "staleStore\<lparr>inventory :=
       [\<lparr>dishId = ''dish_1'', stock = 3, alertThreshold = Some 5, supplier = Some [],
         cost = Some 0, expiryDate = None, adjustmentReason = None, lastAdjustment = None\<rparr>,
        \<lparr>dishId = ''dish_2'', stock = 0, alertThreshold = Some 5, supplier = Some [],
         cost = Some 0, expiryDate = None, adjustmentReason = None,
         lastAdjustment = None\<rparr>]\<rparr>"
  have d: "distinct (map dish_id (dishes staleStore))"
    by (simp add: staleStore_def sampleStore_def)
  have e: "synchronizeInventory staleStore =
      (Inr \<lparr> created = 1, updated = 1, total = 2 \<rparr>, ?st')"
    by (simp add: synchronizeInventory_def readDishes_def readInventory_def
        writeInventory_def or_int_def staleStore_def sampleStore_def)
  from synchronizeInventory_idempotent [OF d e]
  have "synchronizeInventory ?st' = (Inr \<lparr> created = 0, updated = 0, total = 2 \<rparr>, ?st')"
    by simp
  with d e show ?thesis by simp
qed

end
